theory Spec2Isabelle
  imports Main "HOL-Library.Multiset" "HOL-Library.Product_Lexorder"
begin

section \<open>The advisor API of catanatron, \<^verbatim>\<open>web/advisor_api.py\<close>\<close>

text \<open>
  The module builds a board from tile and port descriptors
  (\<^verbatim>\<open>create_custom_board\<close>), reconstructs a game position from a request
  (\<^verbatim>\<open>create_game_from_advisor_request\<close>), asks a player object for a move
  (\<^verbatim>\<open>advisor_endpoint\<close>) and explains the move (\<^verbatim>\<open>generate_explanation\<close>).
  Python exceptions are values of type \<open>error\<close>; a function that can raise returns
  \<open>error + 'a\<close>, with \<open>Inl\<close> for the exception.
\<close>

subsection \<open>Exceptions, enumerations and values\<close>

datatype error = KeyError | IndexError | TypeError | NetworkXError | DecideError string

text \<open>
  The enumeration \<^verbatim>\<open>Color\<close> is declared in \<^verbatim>\<open>catanatron.models.player\<close>; the
  members are the four that the module names when it seats the players.
  \<^verbatim>\<open>Color[name]\<close> raises \<^verbatim>\<open>KeyError\<close> for any other name.
\<close>

datatype Color = RED | BLUE | ORANGE | WHITE

definition Color_names :: "(string \<times> Color) list" where
  "Color_names = [(''RED'', RED), (''BLUE'', BLUE), (''ORANGE'', ORANGE), (''WHITE'', WHITE)]"

definition Color_of :: "string \<Rightarrow> error + Color" where
  "Color_of name = (case map_of Color_names name of None \<Rightarrow> Inl KeyError | Some c \<Rightarrow> Inr c)"

datatype Resource = WOOD | BRICK | SHEEP | WHEAT | ORE

definition RESOURCE_MAP :: "(string \<times> Resource) list" where
  "RESOURCE_MAP = [(''WOOD'', WOOD), (''BRICK'', BRICK), (''SHEEP'', SHEEP),
     (''WHEAT'', WHEAT), (''ORE'', ORE)]"

definition DEV_CARD_MAP :: "(string \<times> string) list" where
  "DEV_CARD_MAP = [(''KNIGHT'', ''KNIGHT''), (''VICTORY_POINT'', ''VICTORY_POINT''),
     (''ROAD_BUILDING'', ''ROAD_BUILDING''), (''YEAR_OF_PLENTY'', ''YEAR_OF_PLENTY''),
     (''MONOPOLY'', ''MONOPOLY'')]"

text \<open>\<^verbatim>\<open>d.get(k)\<close> and \<^verbatim>\<open>k in d\<close> on a dictionary given by its items.\<close>

definition dict_get :: "('k \<times> 'v) list \<Rightarrow> 'k \<Rightarrow> 'v option" where
  "dict_get d k = map_of d k"

definition dict_in :: "'k \<Rightarrow> ('k \<times> 'v) list \<Rightarrow> bool" where
  "dict_in k d = (k \<in> set (map fst d))"

datatype BuildingType = SETTLEMENT | CITY

subsection \<open>The board: coordinates and tiles\<close>

type_synonym Coordinate = "int \<times> int \<times> int"

definition coord_sum :: "Coordinate \<Rightarrow> int" where
  "coord_sum c = (case c of (x, y, z) \<Rightarrow> x + y + z)"

text \<open>
  The three tile classes of \<^verbatim>\<open>catanatron.models.map\<close>. The node and edge tables of a
  tile are whatever \<^verbatim>\<open>get_nodes_and_edges\<close> returns, of types \<open>'n\<close> and \<open>'e\<close>. A
  port's direction is a member of the enumeration \<^verbatim>\<open>Direction\<close>, identified by its
  name.
\<close>

datatype ('n, 'e) Tile =
    LandTile int "Resource option" "int option" 'n 'e
  | Port int "Resource option" string 'n 'e
  | Water 'n 'e

text \<open>
  A tile descriptor and a port descriptor of the request. The keys that the source reads
  with \<^verbatim>\<open>d[key]\<close> are fields; the keys that it reads with \<^verbatim>\<open>d.get(key)\<close> are
  options, \<open>None\<close> when the key is absent or null. Coordinates are triples of
  integers and tokens are strings.
\<close>

record tile_info =
  t_coordinate :: Coordinate
  t_resource :: "string option"
  t_number :: "int option"

record port_info =
  p_coordinate :: Coordinate
  p_direction :: string
  p_resource :: "string option"

text \<open>
  What the builder takes from \<^verbatim>\<open>catanatron.models.map\<close>:
  \<^verbatim>\<open>get_nodes_and_edges(tiles, coordinate, node_autoinc)\<close>, which returns the node
  table, the edge table and the next free node identifier, and the names of the members
  of \<^verbatim>\<open>Direction\<close>.
\<close>

record ('n, 'e) MapLib =
  get_nodes_and_edges ::
    "(Coordinate \<rightharpoonup> ('n, 'e) Tile) \<Rightarrow> Coordinate \<Rightarrow> int \<Rightarrow> 'n \<times> 'e \<times> int"
  Direction_names :: "string list"

definition Direction_of :: "('n, 'e) MapLib \<Rightarrow> string \<Rightarrow> error + string" where
  "Direction_of lib name = (if name \<in> set (Direction_names lib) then Inr name else Inl KeyError)"

text \<open>
  Modelled from the spec: \<^verbatim>\<open>CatanMap.from_tiles\<close> is not part of the module; the
  board is assembled from the completed map from coordinates to tiles, which is the
  field \<open>tiles\<close> here.
\<close>

record ('n, 'e) CatanMap =
  tiles :: "Coordinate \<rightharpoonup> ('n, 'e) Tile"

definition from_tiles :: "(Coordinate \<rightharpoonup> ('n, 'e) Tile) \<Rightarrow> ('n, 'e) CatanMap" where
  "from_tiles all_tiles = \<lparr>tiles = all_tiles\<rparr>"

subsection \<open>\<^verbatim>\<open>create_custom_board\<close>\<close>

text \<open>A \<^verbatim>\<open>for\<close> loop whose body can raise: the first exception ends the loop.\<close>

fun for_each :: "('s \<Rightarrow> 'a \<Rightarrow> error + 's) \<Rightarrow> 's \<Rightarrow> 'a list \<Rightarrow> error + 's" where
  "for_each body s [] = Inr s"
| "for_each body s (x # xs) =
     (case body s x of Inl e \<Rightarrow> Inl e | Inr s' \<Rightarrow> for_each body s' xs)"

text \<open>
  The loop state of the builder: \<^verbatim>\<open>all_tiles\<close>, \<^verbatim>\<open>node_autoinc\<close> and the tile or
  port counter.
\<close>

type_synonym ('n, 'e) build_state = "(Coordinate \<rightharpoonup> ('n, 'e) Tile) \<times> int \<times> int"

definition land_tile_of :: "tile_info \<Rightarrow> int \<Rightarrow> 'n \<Rightarrow> 'e \<Rightarrow> ('n, 'e) Tile" where
  "land_tile_of tile_info tile_autoinc nodes edges =
     (case t_resource tile_info of
        None \<Rightarrow> LandTile tile_autoinc None None nodes edges
      | Some resource \<Rightarrow>
          LandTile tile_autoinc (dict_get RESOURCE_MAP resource) (t_number tile_info) nodes edges)"

definition add_land_tile ::
  "('n, 'e) MapLib \<Rightarrow> ('n, 'e) build_state \<Rightarrow> tile_info \<Rightarrow> ('n, 'e) build_state" where
  "add_land_tile lib s tile_info =
     (case s of (all_tiles, node_autoinc, tile_autoinc) \<Rightarrow>
        let coord = t_coordinate tile_info in
        case get_nodes_and_edges lib all_tiles coord node_autoinc of
          (nodes, edges, node_autoinc') \<Rightarrow>
            (all_tiles(coord \<mapsto> land_tile_of tile_info tile_autoinc nodes edges),
             node_autoinc', tile_autoinc + 1))"

definition port_resource_of :: "string option \<Rightarrow> Resource option" where
  "port_resource_of resource =
     (case resource of
        None \<Rightarrow> None
      | Some r \<Rightarrow> if r \<noteq> [] then dict_get RESOURCE_MAP r else None)"

definition add_port ::
  "('n, 'e) MapLib \<Rightarrow> ('n, 'e) build_state \<Rightarrow> port_info \<Rightarrow> error + ('n, 'e) build_state" where
  "add_port lib s port_info =
     (case s of (all_tiles, node_autoinc, port_autoinc) \<Rightarrow>
        let coord = p_coordinate port_info in
        case get_nodes_and_edges lib all_tiles coord node_autoinc of
          (nodes, edges, node_autoinc') \<Rightarrow>
            let fast_resource = port_resource_of (p_resource port_info) in
            case Direction_of lib (p_direction port_info) of
              Inl e \<Rightarrow> Inl e
            | Inr direction \<Rightarrow>
                Inr (all_tiles(coord \<mapsto> Port port_autoinc fast_resource direction nodes edges),
                     node_autoinc', port_autoinc + 1))"

definition water_coords :: "Coordinate list" where
  "water_coords =
     [(3, -3, 0), (2, -3, 1), (1, -3, 2), (0, -3, 3),
      (-1, -2, 3), (-2, -1, 3), (-3, 0, 3), (-3, 1, 2),
      (-3, 2, 1), (-3, 3, 0), (-2, 3, -1), (-1, 3, -2),
      (0, 3, -3), (1, 2, -3), (2, 1, -3), (3, 0, -3),
      (3, -1, -2), (3, -2, -1)]"

definition add_water ::
  "('n, 'e) MapLib \<Rightarrow> (Coordinate \<rightharpoonup> ('n, 'e) Tile) \<times> int \<Rightarrow> Coordinate \<Rightarrow>
   (Coordinate \<rightharpoonup> ('n, 'e) Tile) \<times> int" where
  "add_water lib s coord =
     (case s of (all_tiles, node_autoinc) \<Rightarrow>
        if all_tiles coord = None then
          (case get_nodes_and_edges lib all_tiles coord node_autoinc of
             (nodes, edges, node_autoinc') \<Rightarrow> (all_tiles(coord \<mapsto> Water nodes edges), node_autoinc'))
        else (all_tiles, node_autoinc))"

text \<open>
  The first two loops: the land tiles in the order of \<^verbatim>\<open>sorted\<close> (a stable sort
  on the coordinate triple, compared as Python compares tuples), then the ports in the
  order given. The result is \<^verbatim>\<open>all_tiles\<close> and \<^verbatim>\<open>node_autoinc\<close> as the water loop
  finds them.
\<close>

definition place_tiles_and_ports ::
  "('n, 'e) MapLib \<Rightarrow> tile_info list \<Rightarrow> port_info list \<Rightarrow>
   error + (Coordinate \<rightharpoonup> ('n, 'e) Tile) \<times> int" where
  "place_tiles_and_ports lib tiles_data ports_data =
     (let sorted_tiles = sort_key t_coordinate tiles_data in
      case fold (\<lambda>tile_info s. add_land_tile lib s tile_info) sorted_tiles (Map.empty, 0, 0) of
        (all_tiles, node_autoinc, tile_autoinc) \<Rightarrow>
          (case for_each (add_port lib) (all_tiles, node_autoinc, 0) ports_data of
             Inl e \<Rightarrow> Inl e
           | Inr (all_tiles', node_autoinc', port_autoinc) \<Rightarrow> Inr (all_tiles', node_autoinc')))"

definition create_custom_board ::
  "('n, 'e) MapLib \<Rightarrow> tile_info list \<Rightarrow> port_info list \<Rightarrow> error + ('n, 'e) CatanMap" where
  "create_custom_board lib tiles_data ports_data =
     (case place_tiles_and_ports lib tiles_data ports_data of
        Inl e \<Rightarrow> Inl e
      | Inr s \<Rightarrow> Inr (from_tiles (fst (fold (\<lambda>coord s. add_water lib s coord) water_coords s))))"

text \<open>
  A sample of the library for running the builder on concrete inputs: its allocator
  shares nothing and hands out six fresh node identifiers per tile, and the direction
  names are those of the six neighbours of a hexagon.
\<close>

definition sample_lib :: "(int list, (int \<times> int) list) MapLib" where
  "sample_lib = \<lparr>
     get_nodes_and_edges = (\<lambda>all_tiles coord n.
        ([n, n + 1, n + 2, n + 3, n + 4, n + 5],
         [(n, n + 1), (n + 1, n + 2), (n + 2, n + 3), (n + 3, n + 4), (n + 4, n + 5), (n, n + 5)],
         n + 6)),
     Direction_names = [''EAST'', ''SOUTHEAST'', ''SOUTHWEST'', ''WEST'', ''NORTHWEST'', ''NORTHEAST'']\<rparr>"

text \<open>
  Sample descriptors: a land tile with the resource token \<^verbatim>\<open>GOLD\<close>, a land tile on
  the outer ring, a desert, and a port with the resource token \<^verbatim>\<open>GEMS\<close>.
\<close>

definition sample_tiles :: "tile_info list" where
  "sample_tiles =
     [\<lparr>t_coordinate = (0, 0, 0), t_resource = Some ''GOLD'', t_number = Some 8\<rparr>,
      \<lparr>t_coordinate = (3, -3, 0), t_resource = Some ''WOOD'', t_number = Some 6\<rparr>,
      \<lparr>t_coordinate = (-1, 0, 1), t_resource = None, t_number = None\<rparr>]"

definition sample_ports :: "port_info list" where
  "sample_ports =
     [\<lparr>p_coordinate = (2, -3, 1), p_direction = ''WEST'', p_resource = Some ''GEMS''\<rparr>]"

subsection \<open>The game position\<close>

text \<open>
  A building override and a road override of the request, with the keys that the source
  reads as fields; an edge is a pair of node identifiers.
\<close>

record building_info =
  b_node_id :: int
  b_color :: string
  b_building :: string

record road_info =
  r_edge_id :: "int \<times> int"
  r_color :: string

text \<open>
  The request body after \<^verbatim>\<open>data.get(key, default)\<close>: a key that is absent has its
  default (2 players, \<^verbatim>\<open>"RED"\<close>, the empty list or dictionary, no robber
  coordinate). The three dictionaries are given by their items.
\<close>

record request_data =
  num_players :: int
  advised_player :: string
  tiles_data :: "tile_info list"
  ports_data :: "port_info list"
  buildings_data :: "building_info list"
  roads_data :: "road_info list"
  robber_coord :: "Coordinate option"
  player_resources :: "(string \<times> int) list"
  player_dev_cards :: "(string \<times> int) list"
  players_knights :: "(string \<times> int) list"

text \<open>
  Action payloads are untyped in the source; the values modelled are \<^verbatim>\<open>None\<close>,
  booleans, integers, strings and tuples of these.
\<close>

datatype Value = NoneV | BoolV bool | IntV int | StrV string | TupleV "Value list"

text \<open>
  The enumeration \<^verbatim>\<open>ActionType\<close> is declared in \<^verbatim>\<open>catanatron.models.enums\<close>.
  The eleven members that the module names are constructors; any other member is
  \<open>OtherAction\<close> with its name.
\<close>

datatype ActionType =
    END_TURN | BUILD_SETTLEMENT | BUILD_CITY | BUILD_ROAD | BUY_DEVELOPMENT_CARD
  | PLAY_KNIGHT_CARD | MARITIME_TRADE | MOVE_ROBBER | PLAY_ROAD_BUILDING
  | PLAY_YEAR_OF_PLENTY | PLAY_MONOPOLY | OtherAction string

datatype Action = Action (color: Color) (action_type: ActionType) (action_value: Value)

datatype ActionPrompt = BUILD_INITIAL_SETTLEMENT | PLAY_TURN

text \<open>
  The fields of \<^verbatim>\<open>game.state\<close> and \<^verbatim>\<open>game.state.board\<close> that the module reads
  or writes, in one record. The entry \<^verbatim>\<open>player_state[f"{p_key}_{field}"]\<close> is the
  entry at the pair of the seat number in \<^verbatim>\<open>p_key\<close> and the field name; the
  boolean \<^verbatim>\<open>True\<close> stored under \<^verbatim>\<open>HAS_ROLLED\<close> is the integer 1. The player
  objects are identified by their colours.
\<close>

record ('n, 'e) Game =
  game_map :: "('n, 'e) CatanMap option"
  colors :: "Color list"
  color_to_index :: "Color \<rightharpoonup> nat"
  buildings :: "int \<rightharpoonup> Color \<times> BuildingType"
  buildings_by_color :: "Color \<rightharpoonup> (BuildingType \<Rightarrow> int list)"
  board_buildable_ids :: "int set"
  roads :: "int \<times> int \<rightharpoonup> Color"
  robber_coordinate :: Coordinate
  player_state :: "nat \<times> string \<rightharpoonup> int"
  current_player_index :: nat
  current_turn_index :: nat
  is_initial_build_phase :: bool
  current_prompt :: ActionPrompt
  playable_actions :: "Action list"

text \<open>
  What the module takes from the rest of catanatron: the map library above;
  \<^verbatim>\<open>STATIC_GRAPH.neighbors(node)\<close>, which is \<open>None\<close> where the graph raises because
  the node is not in it; the land nodes and the robber's first coordinate of a map
  (\<open>None\<close> is the default map); the starting stock of a player;
  \<^verbatim>\<open>generate_playable_actions\<close>; and \<^verbatim>\<open>decide\<close> of the player of a colour.
\<close>

record ('n, 'e) Engine =
  map_lib :: "('n, 'e) MapLib"
  neighbors :: "int \<Rightarrow> int list option"
  land_nodes :: "('n, 'e) CatanMap option \<Rightarrow> int set"
  initial_robber :: "('n, 'e) CatanMap option \<Rightarrow> Coordinate"
  settlements_allotment :: int
  cities_allotment :: int
  roads_allotment :: int
  generate_playable_actions :: "('n, 'e) Game \<Rightarrow> Action list"
  decide :: "('n, 'e) Game \<Rightarrow> Color \<Rightarrow> Action list \<Rightarrow> error + Action"

text \<open>
  Modelled from the spec: \<^verbatim>\<open>PLAYER_INITIAL_STATE\<close> of \<^verbatim>\<open>catanatron.state\<close> is
  not part of the module. A default player has the counters of the spec's data model
  under the keys that the module uses: the remaining stock at its starting allotment, and
  the victory points, the hands, the knights played and the dice flag at zero.
\<close>

definition PLAYER_INITIAL_STATE :: "('n, 'e) Engine \<Rightarrow> (string \<times> int) list" where
  "PLAYER_INITIAL_STATE eng =
     [(''VICTORY_POINTS'', 0),
      (''ROADS_AVAILABLE'', roads_allotment eng),
      (''SETTLEMENTS_AVAILABLE'', settlements_allotment eng),
      (''CITIES_AVAILABLE'', cities_allotment eng),
      (''HAS_ROLLED'', 0),
      (''ACTUAL_VICTORY_POINTS'', 0),
      (''PLAYED_KNIGHT'', 0)]
     @ map (\<lambda>(name, r). (name @ ''_IN_HAND'', 0)) RESOURCE_MAP
     @ map (\<lambda>(name, c). (name @ ''_IN_HAND'', 0)) DEV_CARD_MAP"

text \<open>\<^verbatim>\<open>{color: i for i, color in enumerate(colors)}\<close>\<close>

definition index_map :: "Color list \<Rightarrow> (Color \<rightharpoonup> nat)" where
  "index_map cs = fold (\<lambda>(i, c) m. m(c \<mapsto> i)) (enumerate 0 cs) Map.empty"

text \<open>
  Modelled from the spec: the constructors \<^verbatim>\<open>Game\<close>, \<^verbatim>\<open>State\<close> and \<^verbatim>\<open>Board\<close>
  are not part of the module. A freshly initialized game has one default player per
  seat, no building and no road, every land node of the map buildable, and is in the
  initial placement phase. Its seating order is random in the source; the module
  replaces it at once, so the order given is kept here. The table
  \<^verbatim>\<open>buildings_by_color\<close> has an entry for the colour of every player; for any other
  colour the building loop raises \<^verbatim>\<open>KeyError\<close> whether or not the table has an
  entry, since \<^verbatim>\<open>player_key\<close> raises it a few lines later.
\<close>

definition new_game ::
  "('n, 'e) Engine \<Rightarrow> Color list \<Rightarrow> ('n, 'e) CatanMap option \<Rightarrow> ('n, 'e) Game" where
  "new_game eng players catan_map =
     (let state = \<lparr>
        game_map = catan_map,
        colors = players,
        color_to_index = index_map players,
        buildings = Map.empty,
        buildings_by_color = (\<lambda>c. if c \<in> set players then Some (\<lambda>t. []) else None),
        board_buildable_ids = land_nodes eng catan_map,
        roads = Map.empty,
        robber_coordinate = initial_robber eng catan_map,
        player_state = (\<lambda>(i, field).
           if i < length players then map_of (PLAYER_INITIAL_STATE eng) field else None),
        current_player_index = 0,
        current_turn_index = 0,
        is_initial_build_phase = True,
        current_prompt = BUILD_INITIAL_SETTLEMENT,
        playable_actions = []\<rparr>
      in state\<lparr>playable_actions := generate_playable_actions eng state\<rparr>)"

text \<open>
  Modelled from the spec: \<^verbatim>\<open>player_key\<close> of \<^verbatim>\<open>catanatron.state_functions\<close> is not
  part of the module. It is the key prefix of the seat of a colour in the stable map
  from colours to indices, and raises \<^verbatim>\<open>KeyError\<close> for a colour that has no seat.
\<close>

definition player_key :: "('n, 'e) Game \<Rightarrow> Color \<Rightarrow> error + nat" where
  "player_key game c = (case color_to_index game c of None \<Rightarrow> Inl KeyError | Some i \<Rightarrow> Inr i)"

text \<open>\<^verbatim>\<open>player_state[key] += d\<close>, which raises \<^verbatim>\<open>KeyError\<close> when the key is absent.\<close>

definition add_to :: "('n, 'e) Game \<Rightarrow> nat \<times> string \<Rightarrow> int \<Rightarrow> error + ('n, 'e) Game" where
  "add_to game key d =
     (case player_state game key of
        None \<Rightarrow> Inl KeyError
      | Some v \<Rightarrow> Inr (game\<lparr>player_state := (player_state game)(key \<mapsto> v + d)\<rparr>))"

text \<open>\<^verbatim>\<open>player_state[key] = v\<close>\<close>

definition assign :: "('n, 'e) Game \<Rightarrow> nat \<times> string \<Rightarrow> int \<Rightarrow> ('n, 'e) Game" where
  "assign game key v = game\<lparr>player_state := (player_state game)(key \<mapsto> v)\<rparr>"

text \<open>\<^verbatim>\<open>xs[:n]\<close>, where a negative \<open>n\<close> counts from the end.\<close>

definition py_prefix :: "'a list \<Rightarrow> int \<Rightarrow> 'a list" where
  "py_prefix xs n = (if 0 \<le> n then take (nat n) xs else take (length xs - nat (- n)) xs)"

subsection \<open>\<^verbatim>\<open>create_game_from_advisor_request\<close>\<close>

text \<open>The body of the loop over the building overrides.\<close>

definition apply_building ::
  "('n, 'e) Engine \<Rightarrow> ('n, 'e) Game \<Rightarrow> building_info \<Rightarrow> error + ('n, 'e) Game" where
  "apply_building eng game building_info =
     (let node_id = b_node_id building_info in
      case Color_of (b_color building_info) of
        Inl e \<Rightarrow> Inl e
      | Inr c \<Rightarrow>
     (let building_type = (if b_building building_info = ''SETTLEMENT'' then SETTLEMENT else CITY);
          game = game\<lparr>buildings := (buildings game)(node_id \<mapsto> (c, building_type))\<rparr> in
      case buildings_by_color game c of
        None \<Rightarrow> Inl KeyError
      | Some by_type \<Rightarrow>
     (let game = game\<lparr>buildings_by_color := (buildings_by_color game)
                   (c \<mapsto> by_type(building_type := by_type building_type @ [node_id]))\<rparr>;
          game = game\<lparr>board_buildable_ids := board_buildable_ids game - {node_id}\<rparr> in
      case neighbors eng node_id of
        None \<Rightarrow> Inl NetworkXError
      | Some ns \<Rightarrow>
     (let game = game\<lparr>board_buildable_ids := fold (\<lambda>n ids. ids - {n}) ns (board_buildable_ids game)\<rparr> in
      case player_key game c of
        Inl e \<Rightarrow> Inl e
      | Inr p_key \<Rightarrow>
          if building_type = SETTLEMENT then
            (case add_to game (p_key, ''SETTLEMENTS_AVAILABLE'') (- 1) of
               Inl e \<Rightarrow> Inl e
             | Inr game \<Rightarrow>
            (case add_to game (p_key, ''VICTORY_POINTS'') 1 of
               Inl e \<Rightarrow> Inl e
             | Inr game \<Rightarrow> add_to game (p_key, ''ACTUAL_VICTORY_POINTS'') 1))
          else
            (case add_to game (p_key, ''CITIES_AVAILABLE'') (- 1) of
               Inl e \<Rightarrow> Inl e
             | Inr game \<Rightarrow>
            (case add_to game (p_key, ''VICTORY_POINTS'') 2 of
               Inl e \<Rightarrow> Inl e
             | Inr game \<Rightarrow> add_to game (p_key, ''ACTUAL_VICTORY_POINTS'') 2))))))"

text \<open>The body of the loop over the road overrides.\<close>

definition apply_road :: "('n, 'e) Game \<Rightarrow> road_info \<Rightarrow> error + ('n, 'e) Game" where
  "apply_road game road_info =
     (let edge_id = r_edge_id road_info in
      case Color_of (r_color road_info) of
        Inl e \<Rightarrow> Inl e
      | Inr c \<Rightarrow>
     (let game = game\<lparr>roads := (roads game)(edge_id \<mapsto> c)\<rparr>;
          game = game\<lparr>roads := (roads game)((snd edge_id, fst edge_id) \<mapsto> c)\<rparr> in
      case player_key game c of
        Inl e \<Rightarrow> Inl e
      | Inr p_key \<Rightarrow> add_to game (p_key, ''ROADS_AVAILABLE'') (- 1)))"

text \<open>The bodies of the loops over the hand, the development cards and the knights.\<close>

definition set_resource :: "nat \<Rightarrow> string \<times> int \<Rightarrow> ('n, 'e) Game \<Rightarrow> ('n, 'e) Game" where
  "set_resource p_key item game =
     (case item of (resource_str, cnt) \<Rightarrow>
        if dict_in resource_str RESOURCE_MAP
        then assign game (p_key, resource_str @ ''_IN_HAND'') cnt
        else game)"

definition set_dev_card :: "nat \<Rightarrow> string \<times> int \<Rightarrow> ('n, 'e) Game \<Rightarrow> ('n, 'e) Game" where
  "set_dev_card p_key item game =
     (case item of (card_type, cnt) \<Rightarrow>
        if dict_in card_type DEV_CARD_MAP
        then assign game (p_key, card_type @ ''_IN_HAND'') cnt
        else game)"

definition set_knights :: "('n, 'e) Game \<Rightarrow> string \<times> int \<Rightarrow> error + ('n, 'e) Game" where
  "set_knights game item =
     (case item of (color_str, cnt) \<Rightarrow>
        case Color_of color_str of
          Inl e \<Rightarrow> Inl e
        | Inr other_color \<Rightarrow>
            (case player_key game other_color of
               Inl e \<Rightarrow> Inl e
             | Inr other_p_key \<Rightarrow> Inr (assign game (other_p_key, ''PLAYED_KNIGHT'') cnt)))"

text \<open>
  The function up to the two override loops: the players, the map, the fresh game with
  the seating replaced, then the buildings and the roads.
\<close>

definition seed_game ::
  "('n, 'e) Engine \<Rightarrow> request_data \<Rightarrow> error + ('n, 'e) Game" where
  "seed_game eng data =
     (let players = py_prefix [RED, BLUE, ORANGE, WHITE] (num_players data) in
      case (if tiles_data data \<noteq> []
            then (case create_custom_board (map_lib eng) (tiles_data data) (ports_data data) of
                    Inl e \<Rightarrow> Inl e | Inr m \<Rightarrow> Inr (Some m))
            else Inr None) of
        Inl e \<Rightarrow> Inl e
      | Inr catan_map \<Rightarrow>
          Inr ((new_game eng players catan_map)
                 \<lparr>colors := players, color_to_index := index_map players\<rparr>))"

text \<open>
  The function after the two override loops: the robber, the turn of the advised
  player, the hand, the development cards, the knights, the phase, the dice flag and the
  legal actions.
\<close>

definition finish_game ::
  "('n, 'e) Engine \<Rightarrow> request_data \<Rightarrow> ('n, 'e) Game \<Rightarrow> Color \<Rightarrow> error + ('n, 'e) Game \<times> Color" where
  "finish_game eng data game advised_color =
     (let game = (case robber_coord data of
                    None \<Rightarrow> game
                  | Some rc \<Rightarrow> game\<lparr>robber_coordinate := rc\<rparr>) in
      case color_to_index game advised_color of
        None \<Rightarrow> Inl KeyError
      | Some advised_index \<Rightarrow>
     (let game = game\<lparr>current_player_index := advised_index,
                       current_turn_index := advised_index\<rparr> in
      case player_key game advised_color of
        Inl e \<Rightarrow> Inl e
      | Inr p_key \<Rightarrow>
     (let game = fold (set_resource p_key) (player_resources data) game;
          game = fold (set_dev_card p_key) (player_dev_cards data) game in
      case for_each set_knights game (players_knights data) of
        Inl e \<Rightarrow> Inl e
      | Inr game \<Rightarrow>
     (let game = game\<lparr>is_initial_build_phase := False, current_prompt := PLAY_TURN\<rparr>;
          game = assign game (p_key, ''HAS_ROLLED'') 1;
          game = game\<lparr>playable_actions := generate_playable_actions eng game\<rparr>
      in Inr (game, advised_color)))))"

definition create_game_from_advisor_request ::
  "('n, 'e) Engine \<Rightarrow> request_data \<Rightarrow> error + ('n, 'e) Game \<times> Color" where
  "create_game_from_advisor_request eng data =
     (case Color_of (advised_player data) of
        Inl e \<Rightarrow> Inl e
      | Inr advised_color \<Rightarrow>
     (case seed_game eng data of
        Inl e \<Rightarrow> Inl e
      | Inr game \<Rightarrow>
     (case for_each (apply_building eng) game (buildings_data data) of
        Inl e \<Rightarrow> Inl e
      | Inr game \<Rightarrow>
     (case for_each apply_road game (roads_data data) of
        Inl e \<Rightarrow> Inl e
      | Inr game \<Rightarrow> finish_game eng data game advised_color))))"

text \<open>
  The vertices that a building on \<open>v\<close> takes out of the buildable set: \<open>v\<close> and its
  direct neighbours in the static graph.
\<close>

definition excluded_by :: "('n, 'e) Engine \<Rightarrow> int \<Rightarrow> int set" where
  "excluded_by eng v = insert v (case neighbors eng v of None \<Rightarrow> {} | Some ns \<Rightarrow> set ns)"

subsection \<open>Python values as text\<close>

text \<open>The truth value of a payload, \<^verbatim>\<open>len\<close>, and indexing with \<^verbatim>\<open>value[i]\<close>.\<close>

fun truthy :: "Value \<Rightarrow> bool" where
  "truthy NoneV = False"
| "truthy (BoolV b) = b"
| "truthy (IntV i) = (i \<noteq> 0)"
| "truthy (StrV s) = (s \<noteq> [])"
| "truthy (TupleV vs) = (vs \<noteq> [])"

fun py_len :: "Value \<Rightarrow> error + nat" where
  "py_len (StrV s) = Inr (length s)"
| "py_len (TupleV vs) = Inr (length vs)"
| "py_len v = Inl TypeError"

definition py_index :: "nat \<Rightarrow> int \<Rightarrow> error + nat" where
  "py_index n i =
     (let j = (if i < 0 then int n + i else i)
      in if 0 \<le> j \<and> j < int n then Inr (nat j) else Inl IndexError)"

fun py_item :: "Value \<Rightarrow> int \<Rightarrow> error + Value" where
  "py_item (StrV s) i =
     (case py_index (length s) i of Inl e \<Rightarrow> Inl e | Inr j \<Rightarrow> Inr (StrV [s ! j]))"
| "py_item (TupleV vs) i =
     (case py_index (length vs) i of Inl e \<Rightarrow> Inl e | Inr j \<Rightarrow> Inr (vs ! j))"
| "py_item v i = Inl TypeError"

text \<open>
  \<^verbatim>\<open>str\<close> and \<^verbatim>\<open>repr\<close> of a payload, as an f-string inserts it: integers in decimal,
  a string inside a tuple between single quotes (exact for a string that needs no
  escape), a tuple of one element with its trailing comma.
\<close>

definition digit :: "nat \<Rightarrow> char" where
  "digit d = ''0123456789'' ! d"

fun str_nat :: "nat \<Rightarrow> string" where
  "str_nat n = (if n < 10 then [digit n] else str_nat (n div 10) @ [digit (n mod 10)])"

definition str_int :: "int \<Rightarrow> string" where
  "str_int i = (if i < 0 then ''-'' @ str_nat (nat (- i)) else str_nat (nat i))"

fun join :: "string \<Rightarrow> string list \<Rightarrow> string" where
  "join sep [] = []"
| "join sep [x] = x"
| "join sep (x # y # ys) = x @ sep @ join sep (y # ys)"

fun py_repr :: "Value \<Rightarrow> string" where
  "py_repr NoneV = ''None''"
| "py_repr (BoolV b) = (if b then ''True'' else ''False'')"
| "py_repr (IntV i) = str_int i"
| "py_repr (StrV s) = [CHR 0x27] @ s @ [CHR 0x27]"
| "py_repr (TupleV vs) =
     (case map py_repr vs of
        [x] \<Rightarrow> ''('' @ x @ '',)''
      | xs \<Rightarrow> ''('' @ join '', '' xs @ '')'')"

definition py_str :: "Value \<Rightarrow> string" where
  "py_str v = (case v of StrV s \<Rightarrow> s | _ \<Rightarrow> py_repr v)"

text \<open>The \<^verbatim>\<open>name\<close> of an action kind and its \<^verbatim>\<open>str\<close>, as for a plain \<^verbatim>\<open>Enum\<close>.\<close>

fun ActionType_name :: "ActionType \<Rightarrow> string" where
  "ActionType_name END_TURN = ''END_TURN''"
| "ActionType_name BUILD_SETTLEMENT = ''BUILD_SETTLEMENT''"
| "ActionType_name BUILD_CITY = ''BUILD_CITY''"
| "ActionType_name BUILD_ROAD = ''BUILD_ROAD''"
| "ActionType_name BUY_DEVELOPMENT_CARD = ''BUY_DEVELOPMENT_CARD''"
| "ActionType_name PLAY_KNIGHT_CARD = ''PLAY_KNIGHT_CARD''"
| "ActionType_name MARITIME_TRADE = ''MARITIME_TRADE''"
| "ActionType_name MOVE_ROBBER = ''MOVE_ROBBER''"
| "ActionType_name PLAY_ROAD_BUILDING = ''PLAY_ROAD_BUILDING''"
| "ActionType_name PLAY_YEAR_OF_PLENTY = ''PLAY_YEAR_OF_PLENTY''"
| "ActionType_name PLAY_MONOPOLY = ''PLAY_MONOPOLY''"
| "ActionType_name (OtherAction name) = name"

definition ActionType_str :: "ActionType \<Rightarrow> string" where
  "ActionType_str t = ''ActionType.'' @ ActionType_name t"

subsection \<open>\<^verbatim>\<open>generate_explanation\<close>, \<^verbatim>\<open>format_action\<close>, \<^verbatim>\<open>calculate_victory_points\<close>\<close>

text \<open>\<^verbatim>\<open>value[i] if len(value) > k else dflt\<close>, inserted into an f-string.\<close>

definition item_or :: "Value \<Rightarrow> int \<Rightarrow> nat \<Rightarrow> string \<Rightarrow> error + string" where
  "item_or v i k dflt =
     (case py_len v of
        Inl e \<Rightarrow> Inl e
      | Inr n \<Rightarrow>
          if n > k
          then (case py_item v i of Inl e \<Rightarrow> Inl e | Inr x \<Rightarrow> Inr (py_str x))
          else Inr dflt)"

definition generate_explanation :: "Action \<Rightarrow> 'g \<Rightarrow> Color \<Rightarrow> error + string" where
  "generate_explanation action game advised_color =
     (let action_type = action_type action; v = action_value action in
      if action_type = END_TURN then
        Inr ''End your turn. No better moves available with current resources.''
      else if action_type = BUILD_SETTLEMENT then
        Inr (''Build a settlement at node '' @ py_str v @
             ''. This expands your resource production.'')
      else if action_type = BUILD_CITY then
        Inr (''Upgrade settlement at node '' @ py_str v @
             '' to a city. This doubles resource production from that location.'')
      else if action_type = BUILD_ROAD then
        Inr (''Build a road at edge '' @ py_str v @
             ''. This helps connect settlements and work toward longest road.'')
      else if action_type = BUY_DEVELOPMENT_CARD then
        Inr ''Buy a development card. Development cards provide powerful abilities and potential victory points.''
      else if action_type = PLAY_KNIGHT_CARD then
        Inr ''Play a knight card. This allows you to move the robber and steal a resource.''
      else if action_type = MARITIME_TRADE then
        (if truthy v then
           (case item_or v 0 0 ''resources'' of
              Inl e \<Rightarrow> Inl e
            | Inr give_resource \<Rightarrow>
           (case item_or v (- 1) 1 ''resources'' of
              Inl e \<Rightarrow> Inl e
            | Inr get_resource \<Rightarrow>
                Inr (''Trade '' @ give_resource @ '' for '' @ get_resource @
                     '' using a port or bank trade.'')))
         else Inr ''Make a maritime/bank trade to get the resources you need.'')
      else if action_type = MOVE_ROBBER then
        (if truthy v then
           (case item_or v 0 0 ''a tile'' of
              Inl e \<Rightarrow> Inl e
            | Inr coord \<Rightarrow>
                Inr (''Move the robber to '' @ coord @
                     ''. This blocks resource production and lets you steal.''))
         else Inr ''Move the robber to block an opponent's production.'')
      else if action_type = PLAY_ROAD_BUILDING then
        Inr ''Play Road Building card to build two roads for free.''
      else if action_type = PLAY_YEAR_OF_PLENTY then
        Inr (''Play Year of Plenty to get free resources: '' @ py_str v)
      else if action_type = PLAY_MONOPOLY then
        Inr (''Play Monopoly to take all '' @ py_str v @ '' from other players.'')
      else
        Inr (''Recommended action: '' @ ActionType_str action_type))"

definition format_action :: "Action \<Rightarrow> string" where
  "format_action action =
     (let action_type = ActionType_name (action_type action) in
      if action_value action \<noteq> NoneV
      then action_type @ '': '' @ py_str (action_value action)
      else action_type)"

definition victory_points_of :: "('n, 'e) Game \<Rightarrow> Color \<Rightarrow> error + Color \<times> int" where
  "victory_points_of game c =
     (case player_key game c of
        Inl e \<Rightarrow> Inl e
      | Inr p_key \<Rightarrow>
          (case player_state game (p_key, ''ACTUAL_VICTORY_POINTS'') of
             None \<Rightarrow> Inl KeyError
           | Some vp \<Rightarrow> Inr (c, vp)))"

definition calculate_victory_points :: "('n, 'e) Game \<Rightarrow> error + (Color \<times> int) list" where
  "calculate_victory_points game =
     for_each (\<lambda>vps c. case victory_points_of game c of Inl e \<Rightarrow> Inl e | Inr item \<Rightarrow> Inr (vps @ [item]))
       [] (colors game)"

subsection \<open>\<^verbatim>\<open>advisor_endpoint\<close>\<close>

text \<open>
  The JSON body of a response and its status. The traceback text of a failure is left
  out. The endpoint returns its response together with the log of the calls of
  \<^verbatim>\<open>decide\<close> that it made, each entry the list of legal actions passed.
\<close>

datatype body =
    Success string Value string "(Color \<times> int) list" "string list"
  | Failure error
  | Abort string

datatype Response = Response nat body

definition server_error :: "error \<Rightarrow> Response" where
  "server_error e = Response 500 (Failure e)"

definition advisor_endpoint ::
  "('n, 'e) Engine \<Rightarrow> request_data option \<Rightarrow> Response \<times> Action list list" where
  "advisor_endpoint eng request_json =
     (case request_json of
        None \<Rightarrow> (Response 400 (Abort ''Missing or invalid JSON body''), [])
      | Some data \<Rightarrow>
     (case create_game_from_advisor_request eng data of
        Inl e \<Rightarrow> (server_error e, [])
      | Inr (game, advised_color) \<Rightarrow>
     (let playable = playable_actions game in
      if length playable = 0 then
        (case calculate_victory_points game of
           Inl e \<Rightarrow> (server_error e, [])
         | Inr vps \<Rightarrow>
             (Response 200 (Success ''NO_ACTIONS'' NoneV
                ''No legal actions available in this state.'' vps []), []))
      else
        (case color_to_index game advised_color of
           None \<Rightarrow> (server_error KeyError, [])
         | Some i \<Rightarrow>
             if \<not> i < length (colors game) then (server_error IndexError, [])
             else
               (case decide eng game (colors game ! i) playable of
                  Inl e \<Rightarrow> (server_error e, [playable])
                | Inr recommended_action \<Rightarrow>
                    (let action_type = ActionType_name (action_type recommended_action) in
                     case generate_explanation recommended_action game advised_color of
                       Inl e \<Rightarrow> (server_error e, [playable])
                     | Inr explanation \<Rightarrow>
                         (case calculate_victory_points game of
                            Inl e \<Rightarrow> (server_error e, [playable])
                          | Inr vps \<Rightarrow>
                              (Response 200 (Success action_type (action_value recommended_action)
                                 explanation vps (map format_action playable)), [playable]))))))))"

subsection \<open>A sample engine\<close>

text \<open>
  A sample of the engine for running the module on concrete requests: 54 nodes on a
  path, every one a land node, the stock of the base game (5 settlements, 4 cities, 15
  roads), an enumerator that offers to end the turn once the current player holds wood,
  and a player who takes the first legal action.
\<close>

definition sample_engine :: "(int list, (int \<times> int) list) Engine" where
  "sample_engine = \<lparr>
     map_lib = sample_lib,
     neighbors = (\<lambda>n. if 0 \<le> n \<and> n < 54 then Some (filter (\<lambda>k. 0 \<le> k \<and> k < 54) [n - 1, n + 1]) else None),
     land_nodes = (\<lambda>m. {0..53}),
     initial_robber = (\<lambda>m. (0, 0, 0)),
     settlements_allotment = 5,
     cities_allotment = 4,
     roads_allotment = 15,
     generate_playable_actions = (\<lambda>game.
        case player_state game (current_player_index game, ''WOOD_IN_HAND'') of
          None \<Rightarrow> []
        | Some w \<Rightarrow> if 0 < w then [Action (colors game ! current_player_index game) END_TURN NoneV] else []),
     decide = (\<lambda>game c actions.
        case actions of [] \<Rightarrow> Inl (DecideError ''no actions'') | a # rest \<Rightarrow> Inr a)\<rparr>"

subsection \<open>Auxiliary notions\<close>

text \<open>
  The counters that only the building and road loops change, and the relation between
  two positions that differ at most in the robber, the turn, the phase, the legal actions
  and player counters other than these.
\<close>

definition counter_keys :: "string set" where
  "counter_keys = {''VICTORY_POINTS'', ''ACTUAL_VICTORY_POINTS'', ''SETTLEMENTS_AVAILABLE'',
     ''CITIES_AVAILABLE'', ''ROADS_AVAILABLE''}"

text \<open>
  The number of building overrides of a list that place a building of a kind for a
  colour; the kind of an override is decided as the building loop decides it.
\<close>

definition placed :: "Color \<Rightarrow> BuildingType \<Rightarrow> building_info list \<Rightarrow> int" where
  "placed c t bs =
     int (length (filter (\<lambda>b. Color_of (b_color b) = Inr c \<and>
        (if b_building b = ''SETTLEMENT'' then SETTLEMENT else CITY) = t) bs))"

definition same_position :: "('n, 'e) Game \<Rightarrow> ('n, 'e) Game \<Rightarrow> bool" where
  "same_position g g' =
     (colors g' = colors g \<and> color_to_index g' = color_to_index g \<and>
      buildings g' = buildings g \<and> roads g' = roads g \<and>
      board_buildable_ids g' = board_buildable_ids g \<and> game_map g' = game_map g \<and>
      dom (player_state g) \<subseteq> dom (player_state g') \<and>
      (\<forall>i f. f \<in> counter_keys \<longrightarrow> player_state g' (i, f) = player_state g (i, f)))"

text \<open>
  Sample requests on the default map, for two players with RED advised. The first seeds
  two settlements and a city for RED, two roads on one edge with different owners, a
  hand with the key \<^verbatim>\<open>GOLD\<close> beside \<^verbatim>\<open>WOOD\<close>, and a knight for BLUE. The second
  differs in the hand, which holds no wood, and in a building token that is not spelled
  as the source spells it.
\<close>

definition sample_request :: request_data where
  "sample_request = \<lparr>
     num_players = 2,
     advised_player = ''RED'',
     tiles_data = [],
     ports_data = [],
     buildings_data =
       [\<lparr>b_node_id = 3, b_color = ''RED'', b_building = ''SETTLEMENT''\<rparr>,
        \<lparr>b_node_id = 10, b_color = ''RED'', b_building = ''SETTLEMENT''\<rparr>,
        \<lparr>b_node_id = 20, b_color = ''RED'', b_building = ''CITY''\<rparr>],
     roads_data =
       [\<lparr>r_edge_id = (3, 4), r_color = ''RED''\<rparr>,
        \<lparr>r_edge_id = (4, 3), r_color = ''BLUE''\<rparr>],
     robber_coord = None,
     player_resources = [(''GOLD'', 3), (''WOOD'', 2)],
     player_dev_cards = [(''KNIGHT'', 1), (''WIZARD'', 5)],
     players_knights = [(''BLUE'', 1)]\<rparr>"

definition misspelt_building :: building_info where
  "misspelt_building = \<lparr>b_node_id = 7, b_color = ''BLUE'', b_building = ''settlement''\<rparr>"

definition idle_request :: request_data where
  "idle_request = sample_request\<lparr>
     buildings_data := [misspelt_building],
     player_resources := [(''GOLD'', 3)]\<rparr>"

text \<open>The fresh game of two players on the default map, and a settlement for RED.\<close>

definition sample_game :: "(int list, (int \<times> int) list) Game" where
  "sample_game = new_game sample_engine [RED, BLUE] None"

definition sample_settlement :: building_info where
  "sample_settlement = \<lparr>b_node_id = 3, b_color = ''RED'', b_building = ''SETTLEMENT''\<rparr>"

section \<open>Properties of the board builder\<close>

subsection \<open>The three loops\<close>

lemma add_water_fst:
  "fst (add_water lib (m, n) c) =
     (if m c = None then m(c \<mapsto> Water (fst (get_nodes_and_edges lib m c n)) (fst (snd (get_nodes_and_edges lib m c n)))) else m)"
  by (simp add: add_water_def split: prod.splits)

lemma water_fold_keep:
  "fst s c \<noteq> None \<Longrightarrow> fst (fold (\<lambda>coord s. add_water lib s coord) cs s) c = fst s c"
proof (induction cs arbitrary: s)
  case Nil
  then show ?case by simp
next
  case (Cons a cs)
  obtain m n where s: "s = (m, n)" by (cases s)
  have "fst (add_water lib s a) c = fst s c"
    using Cons.prems by (auto simp: s add_water_fst)
  with Cons show ?case by simp
qed

lemma water_fold_fill:
  "c \<in> set cs \<Longrightarrow> fst s c = None \<Longrightarrow>
   \<exists>nodes edges. fst (fold (\<lambda>coord s. add_water lib s coord) cs s) c = Some (Water nodes edges)"
proof (induction cs arbitrary: s)
  case Nil
  then show ?case by simp
next
  case (Cons a cs)
  obtain m n where s: "s = (m, n)" by (cases s)
  show ?case
  proof (cases "a = c")
    case True
    have "\<exists>nodes edges. fst (add_water lib s a) c = Some (Water nodes edges)"
      using Cons.prems True by (simp add: s add_water_fst)
    then obtain nodes edges where w: "fst (add_water lib s a) c = Some (Water nodes edges)"
      by blast
    then have "fst (fold (\<lambda>coord s. add_water lib s coord) cs (add_water lib s a)) c
        = Some (Water nodes edges)"
      by (simp add: water_fold_keep)
    then show ?thesis by simp
  next
    case False
    then have "c \<in> set cs" using Cons.prems by simp
    moreover have "fst (add_water lib s a) c = None"
      using Cons.prems False by (simp add: s add_water_fst)
    ultimately show ?thesis using Cons.IH by simp
  qed
qed

lemma water_fold_dom:
  "dom (fst (fold (\<lambda>coord s. add_water lib s coord) cs s)) = dom (fst s) \<union> set cs"
proof (induction cs arbitrary: s)
  case Nil
  then show ?case by simp
next
  case (Cons a cs)
  obtain m n where s: "s = (m, n)" by (cases s)
  have "dom (fst (add_water lib s a)) = insert a (dom (fst s))"
    by (auto simp: s add_water_fst)
  with Cons.IH [of "add_water lib s a"] show ?case by auto
qed

lemma land_fold_dom:
  "dom (fst (fold (\<lambda>tile_info s. add_land_tile lib s tile_info) ts s))
     = dom (fst s) \<union> t_coordinate ` set ts"
proof (induction ts arbitrary: s)
  case Nil
  then show ?case by simp
next
  case (Cons a ts)
  have "dom (fst (add_land_tile lib s a)) = insert (t_coordinate a) (dom (fst s))"
    by (auto simp: add_land_tile_def Let_def split: prod.splits)
  with Cons.IH [of "add_land_tile lib s a"] show ?case by auto
qed

lemma land_fold_other:
  "c \<notin> t_coordinate ` set ts \<Longrightarrow>
   fst (fold (\<lambda>tile_info s. add_land_tile lib s tile_info) ts s) c = fst s c"
proof (induction ts arbitrary: s)
  case Nil
  then show ?case by simp
next
  case (Cons a ts)
  have "fst (add_land_tile lib s a) c = fst s c"
    using Cons.prems by (auto simp: add_land_tile_def Let_def split: prod.splits)
  with Cons show ?case by simp
qed

lemma add_land_tile_at:
  "\<exists>i n e. fst (add_land_tile lib s a) (t_coordinate a) = Some (land_tile_of a i n e)"
  by (auto simp: add_land_tile_def Let_def split: prod.splits)

lemma add_port_Inr:
  "add_port lib s p = Inr s' \<Longrightarrow>
     p_direction p \<in> set (Direction_names lib) \<and>
     (\<exists>j n e. fst s' = (fst s)(p_coordinate p \<mapsto> Port j (port_resource_of (p_resource p)) (p_direction p) n e))"
  by (auto simp: add_port_def Let_def Direction_of_def split: prod.splits sum.splits if_splits) blast

lemma add_port_Inl:
  "add_port lib s p = Inl e \<Longrightarrow> p_direction p \<notin> set (Direction_names lib)"
  by (auto simp: add_port_def Let_def Direction_of_def split: prod.splits sum.splits if_splits)

lemma port_loop_dom:
  "for_each (add_port lib) s ps = Inr s' \<Longrightarrow> dom (fst s') = dom (fst s) \<union> p_coordinate ` set ps"
proof (induction ps arbitrary: s)
  case Nil
  then show ?case by simp
next
  case (Cons a ps)
  then obtain s1 where a: "add_port lib s a = Inr s1" and r: "for_each (add_port lib) s1 ps = Inr s'"
    by (auto split: sum.splits)
  from add_port_Inr [OF a] have "dom (fst s1) = insert (p_coordinate a) (dom (fst s))" by auto
  with Cons.IH [OF r] show ?case by auto
qed

lemma port_loop_other:
  "for_each (add_port lib) s ps = Inr s' \<Longrightarrow> c \<notin> p_coordinate ` set ps \<Longrightarrow> fst s' c = fst s c"
proof (induction ps arbitrary: s)
  case Nil
  then show ?case by simp
next
  case (Cons a ps)
  then obtain s1 where a: "add_port lib s a = Inr s1" and r: "for_each (add_port lib) s1 ps = Inr s'"
    by (auto split: sum.splits)
  from add_port_Inr [OF a] Cons.prems have "fst s1 c = fst s c" by auto
  with Cons.IH [OF r] Cons.prems show ?case by simp
qed

lemma port_loop_Inl_iff:
  "isl (for_each (add_port lib) s ps) \<longleftrightarrow> (\<exists>p \<in> set ps. p_direction p \<notin> set (Direction_names lib))"
proof (induction ps arbitrary: s)
  case Nil
  then show ?case by simp
next
  case (Cons a ps)
  show ?case
  proof (cases "add_port lib s a")
    case (Inl e)
    with add_port_Inl [OF Inl] show ?thesis by auto
  next
    case (Inr s1)
    with add_port_Inr [OF Inr] Cons.IH [of s1] show ?thesis by auto
  qed
qed

lemma place_dom:
  assumes "place_tiles_and_ports lib ts ps = Inr (all_tiles, k)"
  shows "dom all_tiles = t_coordinate ` set ts \<union> p_coordinate ` set ps"
proof -
  obtain m n i where f: "fold (\<lambda>tile_info s. add_land_tile lib s tile_info)
      (sort_key t_coordinate ts) (Map.empty, 0, 0) = (m, n, i)"
    by (metis prod_cases3)
  from assms f obtain j where p: "for_each (add_port lib) (m, n, 0) ps = Inr (all_tiles, k, j)"
    by (auto simp: place_tiles_and_ports_def split: sum.splits prod.splits)
  have "dom m = t_coordinate ` set ts"
    using land_fold_dom [of lib "sort_key t_coordinate ts" "(Map.empty, 0, 0)"] f by simp
  with port_loop_dom [OF p] show ?thesis by simp
qed

lemma place_Inl_iff:
  "isl (place_tiles_and_ports lib ts ps) \<longleftrightarrow>
     (\<exists>p \<in> set ps. p_direction p \<notin> set (Direction_names lib))"
proof -
  obtain m n i where f: "fold (\<lambda>tile_info s. add_land_tile lib s tile_info)
      (sort_key t_coordinate ts) (Map.empty, 0, 0) = (m, n, i)"
    by (metis prod_cases3)
  have "isl (place_tiles_and_ports lib ts ps) = isl (for_each (add_port lib) (m, n, 0) ps)"
    by (simp add: place_tiles_and_ports_def f split: sum.splits prod.splits)
  then show ?thesis by (simp add: port_loop_Inl_iff)
qed

lemma create_custom_board_Inl_iff:
  "isl (create_custom_board lib ts ps) \<longleftrightarrow>
     (\<exists>p \<in> set ps. p_direction p \<notin> set (Direction_names lib))"
proof -
  have "isl (create_custom_board lib ts ps) = isl (place_tiles_and_ports lib ts ps)"
    by (simp add: create_custom_board_def split: sum.splits)
  then show ?thesis by (simp add: place_Inl_iff)
qed

lemma land_fold_last:
  assumes "filter (\<lambda>t. t_coordinate t = c) xs \<noteq> []"
  shows "\<exists>i n e. fst (fold (\<lambda>tile_info s. add_land_tile lib s tile_info) xs s) c
     = Some (land_tile_of (last (filter (\<lambda>t. t_coordinate t = c) xs)) i n e)"
  using assms
proof (induction xs rule: rev_induct)
  case Nil
  then show ?case by simp
next
  case (snoc x xs)
  let ?s1 = "fold (\<lambda>tile_info s. add_land_tile lib s tile_info) xs s"
  have f: "fold (\<lambda>tile_info s. add_land_tile lib s tile_info) (xs @ [x]) s = add_land_tile lib ?s1 x"
    by simp
  show ?case
  proof (cases "t_coordinate x = c")
    case True
    then have "last (filter (\<lambda>t. t_coordinate t = c) (xs @ [x])) = x" by simp
    with add_land_tile_at [of lib ?s1 x] True show ?thesis unfolding f by simp
  next
    case False
    then have k: "filter (\<lambda>t. t_coordinate t = c) (xs @ [x]) = filter (\<lambda>t. t_coordinate t = c) xs"
      by simp
    have "fst (add_land_tile lib ?s1 x) c = fst ?s1 c"
      using False by (auto simp: add_land_tile_def Let_def split: prod.splits)
    with snoc.IH snoc.prems show ?thesis unfolding f k by simp
  qed
qed

lemma last_of_its_coordinate:
  assumes "\<forall>t \<in> set ys. f t \<noteq> f x"
  shows "filter (\<lambda>t. f t = f x) (xs @ x # ys) = filter (\<lambda>t. f t = f x) xs @ [x]"
proof -
  have "filter (\<lambda>t. f t = f x) ys = []" using assms by (simp add: filter_empty_conv)
  then show ?thesis by simp
qed

lemma port_loop_last:
  assumes "for_each (add_port lib) s ps = Inr s'"
    and "filter (\<lambda>p. p_coordinate p = c) ps \<noteq> []"
  shows "\<exists>j n e. fst s' c = Some (Port j
       (port_resource_of (p_resource (last (filter (\<lambda>p. p_coordinate p = c) ps))))
       (p_direction (last (filter (\<lambda>p. p_coordinate p = c) ps))) n e)"
  using assms
proof (induction ps arbitrary: s)
  case Nil
  then show ?case by simp
next
  case (Cons a ps)
  from Cons.prems(1) obtain s1 where a: "add_port lib s a = Inr s1"
    and r: "for_each (add_port lib) s1 ps = Inr s'"
    by (auto split: sum.splits)
  show ?case
  proof (cases "filter (\<lambda>p. p_coordinate p = c) ps = []")
    case False
    then have "last (filter (\<lambda>p. p_coordinate p = c) (a # ps))
        = last (filter (\<lambda>p. p_coordinate p = c) ps)" by simp
    with Cons.IH [OF r False] show ?thesis by simp
  next
    case True
    with Cons.prems(2) have ac: "p_coordinate a = c" by (auto split: if_splits)
    from True have "c \<notin> p_coordinate ` set ps" by (auto simp: filter_empty_conv)
    from port_loop_other [OF r this] have k: "fst s' c = fst s1 c" .
    have l: "last (filter (\<lambda>p. p_coordinate p = c) (a # ps)) = a" using True ac by simp
    from add_port_Inr [OF a] ac show ?thesis unfolding k l by auto
  qed
qed

lemma board_land_tile:
  assumes b: "create_custom_board lib (ts1 @ ti # ts2) ps = Inr m"
    and later: "\<forall>t \<in> set ts2. t_coordinate t \<noteq> t_coordinate ti"
    and np: "t_coordinate ti \<notin> p_coordinate ` set ps"
  shows "\<exists>i n e. tiles m (t_coordinate ti) = Some (land_tile_of ti i n e)"
proof -
  let ?ts = "ts1 @ ti # ts2"
  let ?c = "t_coordinate ti"
  obtain m0 n0 i0 where f: "fold (\<lambda>tile_info s. add_land_tile lib s tile_info)
      (sort_key t_coordinate ?ts) (Map.empty, 0, 0) = (m0, n0, i0)"
    by (metis prod_cases3)
  from b obtain all_tiles k where
    p: "place_tiles_and_ports lib ?ts ps = Inr (all_tiles, k)" and
    m: "tiles m = fst (fold (\<lambda>coord s. add_water lib s coord) water_coords (all_tiles, k))"
    by (auto simp: create_custom_board_def from_tiles_def split: sum.splits)
  from p f obtain j where pl: "for_each (add_port lib) (m0, n0, 0) ps = Inr (all_tiles, k, j)"
    by (auto simp: place_tiles_and_ports_def split: sum.splits prod.splits)
  have st: "filter (\<lambda>t. t_coordinate t = ?c) (sort_key t_coordinate ?ts)
      = filter (\<lambda>t. t_coordinate t = ?c) ts1 @ [ti]"
    using sort_key_stable [of t_coordinate ?c ?ts] last_of_its_coordinate [OF later, of ts1]
    by simp
  then have ne: "filter (\<lambda>t. t_coordinate t = ?c) (sort_key t_coordinate ?ts) \<noteq> []"
    and la: "last (filter (\<lambda>t. t_coordinate t = ?c) (sort_key t_coordinate ?ts)) = ti"
    by simp_all
  from land_fold_last [OF ne, of lib "(Map.empty, 0, 0)"] f
  obtain i n e where "m0 ?c = Some (land_tile_of ti i n e)" unfolding la by auto
  moreover from port_loop_other [OF pl np] have "all_tiles ?c = m0 ?c" by simp
  ultimately have "all_tiles ?c = Some (land_tile_of ti i n e)" by simp
  then have "tiles m ?c = Some (land_tile_of ti i n e)"
    by (simp add: m water_fold_keep)
  then show ?thesis by blast
qed

lemma board_port:
  assumes b: "create_custom_board lib ts (ps1 @ p # ps2) = Inr m"
    and later: "\<forall>q \<in> set ps2. p_coordinate q \<noteq> p_coordinate p"
  shows "\<exists>j n e. tiles m (p_coordinate p)
      = Some (Port j (port_resource_of (p_resource p)) (p_direction p) n e)"
proof -
  let ?ps = "ps1 @ p # ps2"
  let ?c = "p_coordinate p"
  obtain m0 n0 i0 where f: "fold (\<lambda>tile_info s. add_land_tile lib s tile_info)
      (sort_key t_coordinate ts) (Map.empty, 0, 0) = (m0, n0, i0)"
    by (metis prod_cases3)
  from b obtain all_tiles k where
    pp: "place_tiles_and_ports lib ts ?ps = Inr (all_tiles, k)" and
    m: "tiles m = fst (fold (\<lambda>coord s. add_water lib s coord) water_coords (all_tiles, k))"
    by (auto simp: create_custom_board_def from_tiles_def split: sum.splits)
  from pp f obtain j where pl: "for_each (add_port lib) (m0, n0, 0) ?ps = Inr (all_tiles, k, j)"
    by (auto simp: place_tiles_and_ports_def split: sum.splits prod.splits)
  have st: "filter (\<lambda>q. p_coordinate q = ?c) ?ps = filter (\<lambda>q. p_coordinate q = ?c) ps1 @ [p]"
    by (rule last_of_its_coordinate [OF later])
  then have ne: "filter (\<lambda>q. p_coordinate q = ?c) ?ps \<noteq> []"
    and la: "last (filter (\<lambda>q. p_coordinate q = ?c) ?ps) = p"
    by simp_all
  from port_loop_last [OF pl ne] obtain j n e where
    "all_tiles ?c = Some (Port j (port_resource_of (p_resource p)) (p_direction p) n e)"
    unfolding la by auto
  then have "tiles m ?c = Some (Port j (port_resource_of (p_resource p)) (p_direction p) n e)"
    by (simp add: m water_fold_keep)
  then show ?thesis by blast
qed

lemma water_coords_sum: "\<forall>c \<in> set water_coords. coord_sum c = 0"
  by (simp add: water_coords_def coord_sum_def)

lemma water_coords_18: "length water_coords = 18 \<and> distinct water_coords"
  by (simp add: water_coords_def)

lemma sample_board_built:
  "\<exists>m. create_custom_board sample_lib sample_tiles sample_ports = Inr m"
proof -
  have "\<not> isl (create_custom_board sample_lib sample_tiles sample_ports)"
    by (simp add: create_custom_board_Inl_iff sample_ports_def sample_lib_def)
  then show ?thesis by (cases "create_custom_board sample_lib sample_tiles sample_ports") auto
qed

subsection \<open>The outer ring\<close>

text \<open>
  Claim C3. When \<^verbatim>\<open>create_custom_board\<close> returns, each of the 18 coordinates of the
  outer ring has a tile. Every coordinate that the caller supplied, for a land tile or
  for a port, still carries the tile that the first two loops stored there, so a
  supplied tile on the ring is not overwritten; every ring coordinate that the caller
  did not supply carries a \<open>Water\<close> tile. If the components of every supplied
  coordinate sum to zero, so do those of every coordinate of the resulting map.
\<close>

theorem create_custom_board_ring:
  assumes "create_custom_board lib ts ps = Inr m"
  shows "length water_coords = 18 \<and> distinct water_coords \<and>
    (\<forall>c \<in> set water_coords. tiles m c \<noteq> None) \<and>
    (\<exists>all_tiles k. place_tiles_and_ports lib ts ps = Inr (all_tiles, k) \<and>
       dom all_tiles = t_coordinate ` set ts \<union> p_coordinate ` set ps \<and>
       (\<forall>c \<in> dom all_tiles. tiles m c = all_tiles c) \<and>
       (\<forall>c \<in> set water_coords. c \<notin> dom all_tiles \<longrightarrow>
          (\<exists>nodes edges. tiles m c = Some (Water nodes edges)))) \<and>
    ((\<forall>c \<in> t_coordinate ` set ts \<union> p_coordinate ` set ps. coord_sum c = 0) \<longrightarrow>
       (\<forall>c \<in> dom (tiles m). coord_sum c = 0))"
proof -
  from assms obtain all_tiles k where
    p: "place_tiles_and_ports lib ts ps = Inr (all_tiles, k)" and
    m: "tiles m = fst (fold (\<lambda>coord s. add_water lib s coord) water_coords (all_tiles, k))"
    by (auto simp: create_custom_board_def from_tiles_def split: sum.splits)
  have d: "dom all_tiles = t_coordinate ` set ts \<union> p_coordinate ` set ps"
    by (rule place_dom [OF p])
  have dm: "dom (tiles m) = dom all_tiles \<union> set water_coords"
    by (simp add: m water_fold_dom)
  have keep: "\<forall>c \<in> dom all_tiles. tiles m c = all_tiles c"
    by (auto simp: m water_fold_keep)
  have fill: "\<forall>c \<in> set water_coords. c \<notin> dom all_tiles \<longrightarrow>
      (\<exists>nodes edges. tiles m c = Some (Water nodes edges))"
    using water_fold_fill [of _ water_coords "(all_tiles, k)" lib] by (auto simp: m)
  have ring: "\<forall>c \<in> set water_coords. tiles m c \<noteq> None"
    using dm by auto
  have zero: "(\<forall>c \<in> t_coordinate ` set ts \<union> p_coordinate ` set ps. coord_sum c = 0) \<longrightarrow>
       (\<forall>c \<in> dom (tiles m). coord_sum c = 0)"
    using dm d water_coords_sum by auto
  from water_coords_18 ring p d keep fill zero show ?thesis by blast
qed

theorem create_custom_board_ring_witness:
  "\<exists>m all_tiles k. create_custom_board sample_lib sample_tiles sample_ports = Inr m \<and>
     place_tiles_and_ports sample_lib sample_tiles sample_ports = Inr (all_tiles, k) \<and>
     (\<forall>c \<in> set water_coords. tiles m c \<noteq> None) \<and>
     tiles m (3, -3, 0) = all_tiles (3, -3, 0) \<and>
     tiles m (2, -3, 1) = all_tiles (2, -3, 1) \<and>
     (\<exists>nodes edges. tiles m (1, -3, 2) = Some (Water nodes edges)) \<and>
     (\<forall>c \<in> dom (tiles m). coord_sum c = 0)"
proof -
  obtain m where m: "create_custom_board sample_lib sample_tiles sample_ports = Inr m"
    using sample_board_built by blast
  have z: "\<forall>c \<in> t_coordinate ` set sample_tiles \<union> p_coordinate ` set sample_ports. coord_sum c = 0"
    by (simp add: sample_tiles_def sample_ports_def coord_sum_def)
  have w: "(1, -3, 2) \<in> set water_coords" by (simp add: water_coords_def)
  note r = create_custom_board_ring [OF m]
  from r have ring: "\<forall>c \<in> set water_coords. tiles m c \<noteq> None"
    by (elim conjE)
  from r z have zero: "\<forall>c \<in> dom (tiles m). coord_sum c = 0"
    by (elim conjE) (erule mp)
  from r obtain all_tiles k where
    p: "place_tiles_and_ports sample_lib sample_tiles sample_ports = Inr (all_tiles, k)" and
    d: "dom all_tiles = t_coordinate ` set sample_tiles \<union> p_coordinate ` set sample_ports" and
    keep: "\<forall>c \<in> dom all_tiles. tiles m c = all_tiles c" and
    fill: "\<forall>c \<in> set water_coords. c \<notin> dom all_tiles \<longrightarrow>
          (\<exists>nodes edges. tiles m c = Some (Water nodes edges))"
    by (elim conjE exE)
  have d': "dom all_tiles = {(0, 0, 0), (3, -3, 0), (-1, 0, 1), (2, -3, 1)}"
    by (auto simp: d sample_tiles_def sample_ports_def)
  have k1: "tiles m (3, -3, 0) = all_tiles (3, -3, 0)" and k2: "tiles m (2, -3, 1) = all_tiles (2, -3, 1)"
    using keep d' by auto
  have "(1, -3, 2) \<notin> dom all_tiles" unfolding d' by simp
  with fill w have k3: "\<exists>nodes edges. tiles m (1, -3, 2) = Some (Water nodes edges)"
    by blast
  from m p ring k1 k2 k3 zero show ?thesis by blast
qed

subsection \<open>The order of the land-tile descriptors\<close>

text \<open>
  Claim C4. For land-tile descriptors with distinct coordinates, every permutation of
  the list gives the same result as the list itself, with the ports held fixed: the
  same map from coordinates to tiles, with the same node and edge tables, or the same
  exception. The descriptors are sorted by coordinate before they are processed, and
  distinct coordinates leave one sorted order.
\<close>

theorem board_permutation_invariant:
  assumes "distinct (map t_coordinate ts)" and "mset ts' = mset ts"
  shows "create_custom_board lib ts' ps = create_custom_board lib ts ps"
proof -
  have s: "set ts' = set ts" using assms(2) by (rule mset_eq_setD)
  have "mset ts' = mset (sort_key t_coordinate ts)"
    using assms(2) by simp
  moreover have "inj_on t_coordinate (set ts')"
    using assms(1) s by (simp add: distinct_map)
  moreover have "sorted (map t_coordinate (sort_key t_coordinate ts))"
    by simp
  ultimately have "sort_key t_coordinate ts' = sort_key t_coordinate ts"
    by (rule sort_key_inj_key_eq)
  then show ?thesis
    by (simp add: create_custom_board_def place_tiles_and_ports_def)
qed

theorem board_permutation_invariant_witness:
  "create_custom_board sample_lib (rev sample_tiles) sample_ports
     = create_custom_board sample_lib sample_tiles sample_ports \<and>
   \<not> isl (create_custom_board sample_lib sample_tiles sample_ports)"
proof -
  have "distinct (map t_coordinate sample_tiles)" by (simp add: sample_tiles_def)
  moreover have "mset (rev sample_tiles) = mset sample_tiles" by simp
  ultimately have "create_custom_board sample_lib (rev sample_tiles) sample_ports
     = create_custom_board sample_lib sample_tiles sample_ports"
    by (rule board_permutation_invariant)
  moreover have "\<not> isl (create_custom_board sample_lib sample_tiles sample_ports)"
    using sample_board_built by auto
  ultimately show ?thesis by simp
qed

subsection \<open>Resource tokens that are not recognized\<close>

text \<open>
  Claim C5 says that a resource token outside the five names makes the builder raise.
  It does not: the sample land tile with the token \<^verbatim>\<open>GOLD\<close> and the sample port
  with the token \<^verbatim>\<open>GEMS\<close> are built, each with the resource \<open>None\<close>, and the
  land tile keeps its number 8.
\<close>

theorem unknown_resource_counterexample:
  "\<not> isl (create_custom_board sample_lib sample_tiles sample_ports) \<and>
   tiles (projr (create_custom_board sample_lib sample_tiles sample_ports)) (0, 0, 0)
     = Some (LandTile 1 None (Some 8) [6, 7, 8, 9, 10, 11]
         [(6, 7), (7, 8), (8, 9), (9, 10), (10, 11), (6, 11)]) \<and>
   tiles (projr (create_custom_board sample_lib sample_tiles sample_ports)) (2, -3, 1)
     = Some (Port 0 None ''WEST'' [18, 19, 20, 21, 22, 23]
         [(18, 19), (19, 20), (20, 21), (21, 22), (22, 23), (18, 23)])"
  by code_simp

text \<open>
  Claim C5 as amended. The builder stores the resource \<open>None\<close> for a resource token
  that is not one of the five names. In every board that it builds, a land tile whose
  descriptor has such a token, when no later land-tile descriptor and no port descriptor
  has its coordinate, is a land tile with the resource \<open>None\<close> and the number of its
  descriptor; and a port whose descriptor has such a token, when no later port
  descriptor has its coordinate, is a port with the resource \<open>None\<close>.
\<close>

theorem unknown_resource_defaults_to_None:
  "(\<forall>m ts1 ti ts2 r. create_custom_board lib ts ps = Inr m \<and> ts = ts1 @ ti # ts2 \<and>
        (\<forall>t \<in> set ts2. t_coordinate t \<noteq> t_coordinate ti) \<and>
        t_coordinate ti \<notin> p_coordinate ` set ps \<and>
        t_resource ti = Some r \<and> dict_get RESOURCE_MAP r = None \<longrightarrow>
        (\<exists>i n e. tiles m (t_coordinate ti) = Some (LandTile i None (t_number ti) n e))) \<and>
   (\<forall>m ps1 p ps2 r. create_custom_board lib ts ps = Inr m \<and> ps = ps1 @ p # ps2 \<and>
        (\<forall>q \<in> set ps2. p_coordinate q \<noteq> p_coordinate p) \<and>
        p_resource p = Some r \<and> dict_get RESOURCE_MAP r = None \<longrightarrow>
        (\<exists>j n e. tiles m (p_coordinate p) = Some (Port j None (p_direction p) n e)))"
proof (intro conjI allI impI)
  fix m ts1 ti ts2 r
  assume a: "create_custom_board lib ts ps = Inr m \<and> ts = ts1 @ ti # ts2 \<and>
        (\<forall>t \<in> set ts2. t_coordinate t \<noteq> t_coordinate ti) \<and>
        t_coordinate ti \<notin> p_coordinate ` set ps \<and>
        t_resource ti = Some r \<and> dict_get RESOURCE_MAP r = None"
  then have "\<exists>i n e. tiles m (t_coordinate ti) = Some (land_tile_of ti i n e)"
    by (intro board_land_tile [of lib ts1 ti ts2 ps m]) auto
  with a show "\<exists>i n e. tiles m (t_coordinate ti) = Some (LandTile i None (t_number ti) n e)"
    by (auto simp: land_tile_of_def)
next
  fix m ps1 p ps2 r
  assume a: "create_custom_board lib ts ps = Inr m \<and> ps = ps1 @ p # ps2 \<and>
        (\<forall>q \<in> set ps2. p_coordinate q \<noteq> p_coordinate p) \<and>
        p_resource p = Some r \<and> dict_get RESOURCE_MAP r = None"
  then have "\<exists>j n e. tiles m (p_coordinate p)
      = Some (Port j (port_resource_of (p_resource p)) (p_direction p) n e)"
    by (intro board_port [of lib ts ps1 p ps2 m]) auto
  with a show "\<exists>j n e. tiles m (p_coordinate p) = Some (Port j None (p_direction p) n e)"
    by (auto simp: port_resource_of_def)
qed

theorem unknown_resource_defaults_to_None_witness:
  "\<exists>m. create_custom_board sample_lib sample_tiles sample_ports = Inr m \<and>
     (\<exists>i n e. tiles m (0, 0, 0) = Some (LandTile i None (Some 8) n e)) \<and>
     (\<exists>j n e. tiles m (2, -3, 1) = Some (Port j None ''WEST'' n e))"
proof -
  obtain m where m: "create_custom_board sample_lib sample_tiles sample_ports = Inr m"
    using sample_board_built by blast
  let ?ti = "\<lparr>t_coordinate = (0, 0, 0), t_resource = Some ''GOLD'', t_number = Some 8\<rparr>"
  let ?rest = "[\<lparr>t_coordinate = (3, -3, 0), t_resource = Some ''WOOD'', t_number = Some 6\<rparr>,
      \<lparr>t_coordinate = (-1, 0, 1), t_resource = None, t_number = None\<rparr>]"
  let ?p = "\<lparr>p_coordinate = (2, -3, 1), p_direction = ''WEST'', p_resource = Some ''GEMS''\<rparr>"
  have gold: "dict_get RESOURCE_MAP ''GOLD'' = None" and gems: "dict_get RESOURCE_MAP ''GEMS'' = None"
    by (simp_all add: dict_get_def RESOURCE_MAP_def)
  have t: "create_custom_board sample_lib sample_tiles sample_ports = Inr m \<and>
      sample_tiles = [] @ ?ti # ?rest \<and>
      (\<forall>t \<in> set ?rest. t_coordinate t \<noteq> t_coordinate ?ti) \<and>
      t_coordinate ?ti \<notin> p_coordinate ` set sample_ports \<and>
      t_resource ?ti = Some ''GOLD'' \<and> dict_get RESOURCE_MAP ''GOLD'' = None"
    using m gold by (simp add: sample_tiles_def sample_ports_def)
  have p: "create_custom_board sample_lib sample_tiles sample_ports = Inr m \<and>
      sample_ports = [] @ ?p # [] \<and> (\<forall>q \<in> set []. p_coordinate q \<noteq> p_coordinate ?p) \<and>
      p_resource ?p = Some ''GEMS'' \<and> dict_get RESOURCE_MAP ''GEMS'' = None"
    using m gems by (simp add: sample_ports_def)
  note th = unknown_resource_defaults_to_None [of sample_lib sample_tiles sample_ports]
  have "\<exists>i n e. tiles m (t_coordinate ?ti) = Some (LandTile i None (t_number ?ti) n e)"
    by (rule th [THEN conjunct1, rule_format, of m "[]" ?ti ?rest "''GOLD''"]) (rule t)
  moreover
  have "\<exists>j n e. tiles m (p_coordinate ?p) = Some (Port j None (p_direction ?p) n e)"
    by (rule th [THEN conjunct2, rule_format, of m "[]" ?p "[]" "''GEMS''"]) (rule p)
  ultimately show ?thesis using m by simp
qed


section \<open>Properties of the reconstruction\<close>

subsection \<open>The loop bodies and the seats\<close>

lemma fold_discard: "fold (\<lambda>n ids. ids - {n}) ns S = S - set ns"
  by (induction ns arbitrary: S) auto

lemma add_to_Inr:
  "add_to g k d = Inr g' \<longleftrightarrow>
     (\<exists>v. player_state g k = Some v \<and> g' = g\<lparr>player_state := (player_state g)(k \<mapsto> v + d)\<rparr>)"
  by (auto simp: add_to_def split: option.splits)

lemma player_key_Inr: "player_key g c = Inr i \<longleftrightarrow> color_to_index g c = Some i"
  by (auto simp: player_key_def split: option.splits)

lemma apply_building_Inr:
  assumes "apply_building eng g b = Inr g'"
  shows "\<exists>c i ns by_type s v a.
     Color_of (b_color b) = Inr c \<and> color_to_index g c = Some i \<and>
     neighbors eng (b_node_id b) = Some ns \<and> buildings_by_color g c = Some by_type \<and>
     player_state g (i, if b_building b = ''SETTLEMENT'' then ''SETTLEMENTS_AVAILABLE'' else ''CITIES_AVAILABLE'') = Some s \<and>
     player_state g (i, ''VICTORY_POINTS'') = Some v \<and>
     player_state g (i, ''ACTUAL_VICTORY_POINTS'') = Some a \<and>
     g' = g\<lparr>buildings := (buildings g)(b_node_id b \<mapsto>
               (c, if b_building b = ''SETTLEMENT'' then SETTLEMENT else CITY)),
            buildings_by_color := (buildings_by_color g)(c \<mapsto> by_type
               ((if b_building b = ''SETTLEMENT'' then SETTLEMENT else CITY) :=
                  by_type (if b_building b = ''SETTLEMENT'' then SETTLEMENT else CITY) @ [b_node_id b])),
            board_buildable_ids := board_buildable_ids g - {b_node_id b} - set ns,
            player_state := (player_state g)
              ((i, if b_building b = ''SETTLEMENT'' then ''SETTLEMENTS_AVAILABLE'' else ''CITIES_AVAILABLE'') \<mapsto> s - 1,
               (i, ''VICTORY_POINTS'') \<mapsto> v + (if b_building b = ''SETTLEMENT'' then 1 else 2),
               (i, ''ACTUAL_VICTORY_POINTS'') \<mapsto> a + (if b_building b = ''SETTLEMENT'' then 1 else 2))\<rparr>"
  using assms
  by (auto simp: apply_building_def Let_def add_to_Inr player_key_Inr fold_discard
      split: sum.splits option.splits if_splits)

lemma take4_cases:
  "take k [a, b, c, d] \<in> {[], [a], [a, b], [a, b, c], [a, b, c, d]}"
proof -
  consider "k = 0" | "k = 1" | "k = 2" | "k = 3" | "4 \<le> k" by linarith
  then show ?thesis
    by cases (simp_all add: numeral_2_eq_2 numeral_3_eq_3)
qed

lemma players_cases:
  "py_prefix [RED, BLUE, ORANGE, WHITE] n
     \<in> {[], [RED], [RED, BLUE], [RED, BLUE, ORANGE], [RED, BLUE, ORANGE, WHITE]}"
  unfolding py_prefix_def using take4_cases by (metis (full_types))

lemma index_map_seats:
  assumes "players = py_prefix [RED, BLUE, ORANGE, WHITE] n"
  shows "(index_map players c = Some i) = (i < length players \<and> players ! i = c)"
proof -
  have "players \<in> {[], [RED], [RED, BLUE], [RED, BLUE, ORANGE], [RED, BLUE, ORANGE, WHITE]}"
    using assms players_cases by simp
  then consider "players = []" | "players = [RED]" | "players = [RED, BLUE]"
    | "players = [RED, BLUE, ORANGE]" | "players = [RED, BLUE, ORANGE, WHITE]" by auto
  then show ?thesis
    by cases (cases c; auto simp: index_map_def nth_Cons' less_Suc_eq numeral_2_eq_2 numeral_3_eq_3)+
qed

lemma seat_of_color:
  assumes "players = py_prefix [RED, BLUE, ORANGE, WHITE] n"
    and "index_map players c = Some i" and "index_map players c' = Some i"
  shows "c' = c"
  using assms index_map_seats [OF assms(1)] by metis

subsection \<open>Seeding and the building loop\<close>

lemma for_each_append:
  "for_each body s (xs @ ys) =
     (case for_each body s xs of Inl e \<Rightarrow> Inl e | Inr s' \<Rightarrow> for_each body s' ys)"
  by (induction xs arbitrary: s) (auto split: sum.splits)

lemma seed_game_Inr:
  assumes "seed_game eng data = Inr g0"
  shows "\<exists>m. g0 = (new_game eng (py_prefix [RED, BLUE, ORANGE, WHITE] (num_players data)) m)
     \<lparr>colors := py_prefix [RED, BLUE, ORANGE, WHITE] (num_players data),
      color_to_index := index_map (py_prefix [RED, BLUE, ORANGE, WHITE] (num_players data))\<rparr>"
  using assms by (auto simp: seed_game_def Let_def split: sum.splits if_splits)

lemma seed_game_fields:
  assumes "seed_game eng data = Inr g0"
  shows "colors g0 = py_prefix [RED, BLUE, ORANGE, WHITE] (num_players data)"
    and "color_to_index g0 = index_map (py_prefix [RED, BLUE, ORANGE, WHITE] (num_players data))"
    and "buildings g0 = Map.empty"
    and "roads g0 = Map.empty"
    and "board_buildable_ids g0 = land_nodes eng (game_map g0)"
    and "player_state g0 (i, f) =
       (if i < length (py_prefix [RED, BLUE, ORANGE, WHITE] (num_players data))
        then map_of (PLAYER_INITIAL_STATE eng) f else None)"
  using seed_game_Inr [OF assms] by (auto simp: new_game_def Let_def)

lemma initial_counters:
  "map_of (PLAYER_INITIAL_STATE eng) ''VICTORY_POINTS'' = Some 0"
  "map_of (PLAYER_INITIAL_STATE eng) ''ACTUAL_VICTORY_POINTS'' = Some 0"
  "map_of (PLAYER_INITIAL_STATE eng) ''SETTLEMENTS_AVAILABLE'' = Some (settlements_allotment eng)"
  "map_of (PLAYER_INITIAL_STATE eng) ''CITIES_AVAILABLE'' = Some (cities_allotment eng)"
  "map_of (PLAYER_INITIAL_STATE eng) ''ROADS_AVAILABLE'' = Some (roads_allotment eng)"
  by (simp_all add: PLAYER_INITIAL_STATE_def)

lemma apply_building_frame:
  assumes "apply_building eng g b = Inr g'"
  shows "colors g' = colors g \<and> color_to_index g' = color_to_index g \<and> roads g' = roads g \<and>
     game_map g' = game_map g \<and>
     board_buildable_ids g' = board_buildable_ids g - excluded_by eng (b_node_id b) \<and>
     dom (player_state g) \<subseteq> dom (player_state g') \<and>
     (\<forall>i. player_state g' (i, ''ROADS_AVAILABLE'') = player_state g (i, ''ROADS_AVAILABLE''))"
  using apply_building_Inr [OF assms] by (auto simp: excluded_by_def)

lemma building_loop_frame:
  assumes "for_each (apply_building eng) g bs = Inr g'"
  shows "colors g' = colors g \<and> color_to_index g' = color_to_index g \<and> roads g' = roads g \<and>
     game_map g' = game_map g \<and>
     dom (player_state g) \<subseteq> dom (player_state g') \<and>
     (\<forall>i. player_state g' (i, ''ROADS_AVAILABLE'') = player_state g (i, ''ROADS_AVAILABLE''))"
  using assms
proof (induction bs arbitrary: g)
  case Nil
  then show ?case by simp
next
  case (Cons b bs)
  then obtain g1 where a: "apply_building eng g b = Inr g1"
    and r: "for_each (apply_building eng) g1 bs = Inr g'"
    by (auto split: sum.splits)
  from apply_building_frame [OF a] Cons.IH [OF r] show ?case
    by (simp add: subset_iff)
qed

lemma building_loop_buildable:
  assumes "for_each (apply_building eng) g bs = Inr g'"
  shows "board_buildable_ids g' =
     board_buildable_ids g - (\<Union>b \<in> set bs. excluded_by eng (b_node_id b))"
  using assms
proof (induction bs arbitrary: g)
  case Nil
  then show ?case by simp
next
  case (Cons b bs)
  then obtain g1 where a: "apply_building eng g b = Inr g1"
    and r: "for_each (apply_building eng) g1 bs = Inr g'"
    by (auto split: sum.splits)
  from apply_building_frame [OF a] Cons.IH [OF r] show ?case by auto
qed

subsection \<open>The road loop\<close>

lemma apply_road_Inr:
  assumes "apply_road g r = Inr g'"
  shows "\<exists>c i v. Color_of (r_color r) = Inr c \<and> color_to_index g c = Some i \<and>
     player_state g (i, ''ROADS_AVAILABLE'') = Some v \<and>
     g' = g\<lparr>roads := (roads g)(r_edge_id r \<mapsto> c, (snd (r_edge_id r), fst (r_edge_id r)) \<mapsto> c),
            player_state := (player_state g)((i, ''ROADS_AVAILABLE'') \<mapsto> v - 1)\<rparr>"
  using assms
  by (auto simp: apply_road_def Let_def add_to_Inr player_key_Inr split: sum.splits)

lemma apply_road_frame:
  assumes "apply_road g r = Inr g'"
  shows "colors g' = colors g \<and> color_to_index g' = color_to_index g \<and>
     buildings g' = buildings g \<and> game_map g' = game_map g \<and>
     board_buildable_ids g' = board_buildable_ids g \<and>
     dom (player_state g) \<subseteq> dom (player_state g') \<and>
     (\<forall>i f. f \<noteq> ''ROADS_AVAILABLE'' \<longrightarrow> player_state g' (i, f) = player_state g (i, f))"
  using apply_road_Inr [OF assms] by auto

lemma road_loop_frame:
  assumes "for_each apply_road g rs = Inr g'"
  shows "colors g' = colors g \<and> color_to_index g' = color_to_index g \<and>
     buildings g' = buildings g \<and> game_map g' = game_map g \<and>
     board_buildable_ids g' = board_buildable_ids g \<and>
     dom (player_state g) \<subseteq> dom (player_state g') \<and>
     (\<forall>i f. f \<noteq> ''ROADS_AVAILABLE'' \<longrightarrow> player_state g' (i, f) = player_state g (i, f))"
  using assms
proof (induction rs arbitrary: g)
  case Nil
  then show ?case by simp
next
  case (Cons r rs)
  then obtain g1 where a: "apply_road g r = Inr g1" and l: "for_each apply_road g1 rs = Inr g'"
    by (auto split: sum.splits)
  from apply_road_frame [OF a] Cons.IH [OF l] show ?case
    by (simp add: subset_iff)
qed

lemma apply_road_effect:
  assumes "apply_road g r = Inr g'"
  shows "\<exists>c i v. Color_of (r_color r) = Inr c \<and> color_to_index g c = Some i \<and>
     player_state g (i, ''ROADS_AVAILABLE'') = Some v \<and>
     roads g' = (roads g)(r_edge_id r \<mapsto> c, (snd (r_edge_id r), fst (r_edge_id r)) \<mapsto> c) \<and>
     player_state g' = (player_state g)((i, ''ROADS_AVAILABLE'') \<mapsto> v - 1) \<and>
     color_to_index g' = color_to_index g"
proof -
  from apply_road_Inr [OF assms] obtain c i v where
    "Color_of (r_color r) = Inr c" "color_to_index g c = Some i"
    "player_state g (i, ''ROADS_AVAILABLE'') = Some v"
    "g' = g\<lparr>roads := (roads g)(r_edge_id r \<mapsto> c, (snd (r_edge_id r), fst (r_edge_id r)) \<mapsto> c),
            player_state := (player_state g)((i, ''ROADS_AVAILABLE'') \<mapsto> v - 1)\<rparr>"
    by (elim exE conjE)
  then show ?thesis by simp
qed

lemma road_loop_count:
  assumes "for_each apply_road g rs = Inr g'"
    and "color_to_index g c = Some i"
    and "\<And>c'. color_to_index g c' = Some i \<Longrightarrow> c' = c"
    and "player_state g (i, ''ROADS_AVAILABLE'') = Some v"
  shows "player_state g' (i, ''ROADS_AVAILABLE'')
     = Some (v - int (length (filter (\<lambda>r. Color_of (r_color r) = Inr c) rs)))"
  using assms
proof (induction rs arbitrary: g v)
  case Nil
  from Nil.prems(1,4) show ?case by simp
next
  case (Cons r rs)
  from Cons.prems(1) obtain g1 where a: "apply_road g r = Inr g1"
    and l: "for_each apply_road g1 rs = Inr g'"
    by (auto split: sum.splits)
  from apply_road_effect [OF a] obtain c1 i1 v1 where
    c1: "Color_of (r_color r) = Inr c1" and i1: "color_to_index g c1 = Some i1" and
    v1: "player_state g (i1, ''ROADS_AVAILABLE'') = Some v1" and
    ps: "player_state g1 = (player_state g)((i1, ''ROADS_AVAILABLE'') \<mapsto> v1 - 1)" and
    ci: "color_to_index g1 = color_to_index g"
    by (elim exE conjE)
  have ci1: "color_to_index g1 c = Some i" using Cons.prems(2) ci by simp
  have inj1: "\<And>c'. color_to_index g1 c' = Some i \<Longrightarrow> c' = c"
    unfolding ci by (rule Cons.prems(3))
  show ?case
  proof (cases "c1 = c")
    case True
    then have "i1 = i" using i1 Cons.prems(2) by simp
    then have "player_state g1 (i, ''ROADS_AVAILABLE'') = Some (v - 1)"
      using v1 Cons.prems(4) by (simp add: ps)
    from Cons.IH [OF l ci1 inj1 this] c1 True show ?thesis by simp
  next
    case False
    then have "i1 \<noteq> i" using i1 Cons.prems(3) by blast
    then have "player_state g1 (i, ''ROADS_AVAILABLE'') = Some v"
      using Cons.prems(4) by (simp add: ps)
    from Cons.IH [OF l ci1 inj1 this] c1 False show ?thesis by simp
  qed
qed

lemma road_step_sets:
  "((roads g)(e' \<mapsto> c, (snd e', fst e') \<mapsto> c)) e =
     (if e = e' \<or> e = (snd e', fst e') then Some c else roads g e)"
  by simp

lemma swap_cases:
  "(e' = e \<or> e' = (snd e, fst e)) = (e = e' \<or> e = (snd e', fst e'))"
  "(e' = e \<or> e' = (snd e, fst e)) = ((snd e, fst e) = e' \<or> (snd e, fst e) = (snd e', fst e'))"
  by (cases e; cases e'; auto)+

lemma road_loop_keeps:
  assumes "for_each apply_road g rs = Inr g'"
    and "Color_of name = Inr c"
    and "roads g e = Some c \<and> roads g (snd e, fst e) = Some c"
    and "\<forall>r' \<in> set rs. (r_edge_id r' = e \<or> r_edge_id r' = (snd e, fst e)) \<longrightarrow> r_color r' = name"
  shows "roads g' e = Some c \<and> roads g' (snd e, fst e) = Some c"
  using assms(1,3,4)
proof (induction rs arbitrary: g)
  case Nil
  then show ?case by simp
next
  case (Cons r rs)
  from Cons.prems(1) obtain g1 where a: "apply_road g r = Inr g1"
    and l: "for_each apply_road g1 rs = Inr g'"
    by (auto split: sum.splits)
  from apply_road_effect [OF a] obtain c1 where
    c1: "Color_of (r_color r) = Inr c1" and
    g1: "roads g1 = (roads g)(r_edge_id r \<mapsto> c1, (snd (r_edge_id r), fst (r_edge_id r)) \<mapsto> c1)"
    by (elim exE conjE)
  have "roads g1 e = Some c \<and> roads g1 (snd e, fst e) = Some c"
  proof (cases "r_edge_id r = e \<or> r_edge_id r = (snd e, fst e)")
    case True
    with Cons.prems(3) have "r_color r = name" by auto
    with c1 assms(2) have cc: "c1 = c" by simp
    from True have A: "(e = r_edge_id r \<or> e = (snd (r_edge_id r), fst (r_edge_id r))) = True"
      using swap_cases(1) [of "r_edge_id r" e] by blast
    from True have B: "((snd e, fst e) = r_edge_id r \<or>
        (snd e, fst e) = (snd (r_edge_id r), fst (r_edge_id r))) = True"
      using swap_cases(2) [of "r_edge_id r" e] by blast
    show ?thesis
      unfolding g1 road_step_sets A B cc by (simp only: if_True simp_thms)
  next
    case False
    then have A: "(e = r_edge_id r \<or> e = (snd (r_edge_id r), fst (r_edge_id r))) = False"
      using swap_cases(1) [of "r_edge_id r" e] by blast
    from False have B: "((snd e, fst e) = r_edge_id r \<or>
        (snd e, fst e) = (snd (r_edge_id r), fst (r_edge_id r))) = False"
      using swap_cases(2) [of "r_edge_id r" e] by blast
    show ?thesis
      unfolding g1 road_step_sets A B using Cons.prems(2) by (simp only: if_False)
  qed
  moreover have "\<forall>r' \<in> set rs. (r_edge_id r' = e \<or> r_edge_id r' = (snd e, fst e)) \<longrightarrow> r_color r' = name"
    using Cons.prems(3) by simp
  ultimately show ?case by (rule Cons.IH [OF l])
qed

subsection \<open>The later phases\<close>

lemma same_position_refl: "same_position g g"
  by (simp add: same_position_def)

lemma same_positionD:
  assumes "same_position g g'"
  shows "colors g' = colors g" and "color_to_index g' = color_to_index g"
    and "buildings g' = buildings g" and "roads g' = roads g"
    and "board_buildable_ids g' = board_buildable_ids g" and "game_map g' = game_map g"
    and "dom (player_state g) \<subseteq> dom (player_state g')"
    and "f \<in> counter_keys \<Longrightarrow> player_state g' (i, f) = player_state g (i, f)"
  using assms unfolding same_position_def by blast+

lemma same_position_trans:
  assumes ab: "same_position a b" and bc: "same_position b c"
  shows "same_position a c"
  unfolding same_position_def
proof (intro conjI allI impI)
  show "colors c = colors a" by (simp add: same_positionD(1) [OF ab] same_positionD(1) [OF bc])
  show "color_to_index c = color_to_index a"
    by (simp add: same_positionD(2) [OF ab] same_positionD(2) [OF bc])
  show "buildings c = buildings a" by (simp add: same_positionD(3) [OF ab] same_positionD(3) [OF bc])
  show "roads c = roads a" by (simp add: same_positionD(4) [OF ab] same_positionD(4) [OF bc])
  show "board_buildable_ids c = board_buildable_ids a"
    by (simp add: same_positionD(5) [OF ab] same_positionD(5) [OF bc])
  show "game_map c = game_map a" by (simp add: same_positionD(6) [OF ab] same_positionD(6) [OF bc])
  show "dom (player_state a) \<subseteq> dom (player_state c)"
    using same_positionD(7) [OF ab] same_positionD(7) [OF bc] by (rule order_trans)
  show "player_state c (i, f) = player_state a (i, f)" if "f \<in> counter_keys" for i f
    by (simp add: same_positionD(8) [OF ab that] same_positionD(8) [OF bc that])
qed

lemma fold_same_position:
  assumes "\<And>x s. same_position s (f x s)"
  shows "same_position s (fold f xs s)"
proof (induction xs arbitrary: s)
  case Nil
  show ?case by (simp add: same_position_refl)
next
  case (Cons x xs)
  have "same_position s (f x s)" by (rule assms)
  moreover have "same_position (f x s) (fold f xs (f x s))" by (rule Cons.IH)
  ultimately show ?case by (simp add: same_position_trans)
qed

lemma for_each_same_position:
  assumes "for_each body s xs = Inr s'"
    and "\<And>s x s'. body s x = Inr s' \<Longrightarrow> same_position s s'"
  shows "same_position s s'"
  using assms(1)
proof (induction xs arbitrary: s)
  case Nil
  then show ?case by (simp add: same_position_refl)
next
  case (Cons x xs)
  then obtain s1 where a: "body s x = Inr s1" and r: "for_each body s1 xs = Inr s'"
    by (auto split: sum.splits)
  from assms(2) [OF a] Cons.IH [OF r] show ?case by (rule same_position_trans)
qed

lemma in_hand_not_counter:
  "dict_in r RESOURCE_MAP \<Longrightarrow> r @ ''_IN_HAND'' \<notin> counter_keys"
  "dict_in d DEV_CARD_MAP \<Longrightarrow> d @ ''_IN_HAND'' \<notin> counter_keys"
  by (auto simp: dict_in_def RESOURCE_MAP_def DEV_CARD_MAP_def counter_keys_def)

lemma assign_same_position:
  "f \<notin> counter_keys \<Longrightarrow> same_position g (assign g (i, f) v)"
  by (auto simp: same_position_def assign_def)

lemma set_resource_same_position: "same_position g (set_resource p item g)"
  by (cases item) (simp add: set_resource_def same_position_refl assign_same_position in_hand_not_counter)

lemma set_dev_card_same_position: "same_position g (set_dev_card p item g)"
  by (cases item) (simp add: set_dev_card_def same_position_refl assign_same_position in_hand_not_counter)

lemma set_knights_same_position:
  "set_knights g item = Inr g' \<Longrightarrow> same_position g g'"
  by (cases item)
    (auto simp: set_knights_def counter_keys_def intro!: assign_same_position split: sum.splits)

lemma robber_turn_same_position:
  "same_position g
     ((case rc of None \<Rightarrow> g | Some c \<Rightarrow> g\<lparr>robber_coordinate := c\<rparr>)
        \<lparr>current_player_index := p, current_turn_index := p\<rparr>)"
  by (cases rc) (simp_all add: same_position_def)

lemma flags_same_position:
  "same_position g
     ((assign (g\<lparr>is_initial_build_phase := False, current_prompt := PLAY_TURN\<rparr>)
         (p, ''HAS_ROLLED'') 1)\<lparr>playable_actions := acts\<rparr>)"
  by (auto simp: same_position_def assign_def counter_keys_def)

lemma finish_game_Inr:
  assumes "finish_game eng data g a = Inr (game, a')"
  shows "a' = a \<and> same_position g game \<and> (\<exists>p. color_to_index g a = Some p)"
proof -
  let ?gr = "case robber_coord data of None \<Rightarrow> g | Some c \<Rightarrow> g\<lparr>robber_coordinate := c\<rparr>"
  have ci: "color_to_index ?gr = color_to_index g" by (cases "robber_coord data") simp_all
  from assms obtain p where p: "color_to_index g a = Some p"
    by (cases "color_to_index g a") (simp_all add: finish_game_def Let_def ci)
  let ?g1 = "?gr\<lparr>current_player_index := p, current_turn_index := p\<rparr>"
  let ?g2 = "fold (set_dev_card p) (player_dev_cards data)
     (fold (set_resource p) (player_resources data) ?g1)"
  have pk: "player_key ?g1 a = Inr p" by (simp add: player_key_def ci p)
  from assms obtain g3 where k: "for_each set_knights ?g2 (players_knights data) = Inr g3"
    and game: "game = (assign (g3\<lparr>is_initial_build_phase := False, current_prompt := PLAY_TURN\<rparr>)
         (p, ''HAS_ROLLED'') 1)\<lparr>playable_actions := generate_playable_actions eng
           (assign (g3\<lparr>is_initial_build_phase := False, current_prompt := PLAY_TURN\<rparr>)
              (p, ''HAS_ROLLED'') 1)\<rparr>"
    and a': "a' = a"
    by (simp add: finish_game_def Let_def ci p pk split: sum.splits)
  have 1: "same_position g ?g1" by (rule robber_turn_same_position)
  have 2: "same_position ?g1 (fold (set_resource p) (player_resources data) ?g1)"
    by (rule fold_same_position) (rule set_resource_same_position)
  have 3: "same_position (fold (set_resource p) (player_resources data) ?g1) ?g2"
    by (rule fold_same_position) (rule set_dev_card_same_position)
  have 4: "same_position ?g2 g3"
    using k by (rule for_each_same_position) (rule set_knights_same_position)
  have 5: "same_position g3 game" unfolding game by (rule flags_same_position)
  from 1 2 3 4 5 have "same_position g game" by (blast intro: same_position_trans)
  with a' p show ?thesis by simp
qed

lemma create_game_Inr:
  assumes "create_game_from_advisor_request eng data = Inr (game, a)"
  shows "\<exists>g0 g1 g2. Color_of (advised_player data) = Inr a \<and> seed_game eng data = Inr g0 \<and>
     for_each (apply_building eng) g0 (buildings_data data) = Inr g1 \<and>
     for_each apply_road g1 (roads_data data) = Inr g2 \<and>
     same_position g2 game \<and> (\<exists>p. color_to_index g2 a = Some p)"
proof -
  from assms obtain a0 g0 g1 g2 where
    c: "Color_of (advised_player data) = Inr a0" and s: "seed_game eng data = Inr g0" and
    b: "for_each (apply_building eng) g0 (buildings_data data) = Inr g1" and
    r: "for_each apply_road g1 (roads_data data) = Inr g2" and
    f: "finish_game eng data g2 a0 = Inr (game, a)"
    by (auto simp: create_game_from_advisor_request_def split: sum.splits)
  from finish_game_Inr [OF f] c s b r show ?thesis by auto
qed

subsection \<open>The buildable set\<close>

lemma apply_building_effect:
  assumes "apply_building eng g b = Inr g'"
  shows "\<exists>c i s v a.
     Color_of (b_color b) = Inr c \<and> color_to_index g c = Some i \<and>
     neighbors eng (b_node_id b) \<noteq> None \<and>
     player_state g (i, if b_building b = ''SETTLEMENT'' then ''SETTLEMENTS_AVAILABLE'' else ''CITIES_AVAILABLE'') = Some s \<and>
     player_state g (i, ''VICTORY_POINTS'') = Some v \<and>
     player_state g (i, ''ACTUAL_VICTORY_POINTS'') = Some a \<and>
     color_to_index g' = color_to_index g \<and>
     buildings g' = (buildings g)(b_node_id b \<mapsto>
               (c, if b_building b = ''SETTLEMENT'' then SETTLEMENT else CITY)) \<and>
     player_state g' = (player_state g)
              ((i, if b_building b = ''SETTLEMENT'' then ''SETTLEMENTS_AVAILABLE'' else ''CITIES_AVAILABLE'') \<mapsto> s - 1,
               (i, ''VICTORY_POINTS'') \<mapsto> v + (if b_building b = ''SETTLEMENT'' then 1 else 2),
               (i, ''ACTUAL_VICTORY_POINTS'') \<mapsto> a + (if b_building b = ''SETTLEMENT'' then 1 else 2))"
proof -
  from apply_building_Inr [OF assms] obtain c i ns by_type s v a where
    "Color_of (b_color b) = Inr c" "color_to_index g c = Some i"
    "neighbors eng (b_node_id b) = Some ns"
    "player_state g (i, if b_building b = ''SETTLEMENT'' then ''SETTLEMENTS_AVAILABLE'' else ''CITIES_AVAILABLE'') = Some s"
    "player_state g (i, ''VICTORY_POINTS'') = Some v"
    "player_state g (i, ''ACTUAL_VICTORY_POINTS'') = Some a"
    "g' = g\<lparr>buildings := (buildings g)(b_node_id b \<mapsto>
               (c, if b_building b = ''SETTLEMENT'' then SETTLEMENT else CITY)),
            buildings_by_color := (buildings_by_color g)(c \<mapsto> by_type
               ((if b_building b = ''SETTLEMENT'' then SETTLEMENT else CITY) :=
                  by_type (if b_building b = ''SETTLEMENT'' then SETTLEMENT else CITY) @ [b_node_id b])),
            board_buildable_ids := board_buildable_ids g - {b_node_id b} - set ns,
            player_state := (player_state g)
              ((i, if b_building b = ''SETTLEMENT'' then ''SETTLEMENTS_AVAILABLE'' else ''CITIES_AVAILABLE'') \<mapsto> s - 1,
               (i, ''VICTORY_POINTS'') \<mapsto> v + (if b_building b = ''SETTLEMENT'' then 1 else 2),
               (i, ''ACTUAL_VICTORY_POINTS'') \<mapsto> a + (if b_building b = ''SETTLEMENT'' then 1 else 2))\<rparr>"
    by (elim exE conjE)
  then show ?thesis by simp
qed

lemma building_loop_neighbors:
  assumes "for_each (apply_building eng) g bs = Inr g'"
  shows "\<forall>b \<in> set bs. neighbors eng (b_node_id b) \<noteq> None"
  using assms
proof (induction bs arbitrary: g)
  case Nil
  then show ?case by simp
next
  case (Cons b bs)
  then obtain g1 where a: "apply_building eng g b = Inr g1"
    and r: "for_each (apply_building eng) g1 bs = Inr g'"
    by (auto split: sum.splits)
  from apply_building_effect [OF a] have "neighbors eng (b_node_id b) \<noteq> None" by blast
  with Cons.IH [OF r] show ?case by simp
qed

text \<open>
  Claim C2. After a reconstruction that succeeds, the buildable set of the board is the
  buildable set of the freshly initialized game (the land nodes of its map) minus, for
  every building override, its vertex and the direct neighbours of that vertex in the
  static graph, and nothing else is removed. Every overridden vertex is a node of the
  graph. This holds for every list of overrides, with or without duplicate vertices.
\<close>

theorem buildable_after_reconstruction:
  assumes "create_game_from_advisor_request eng data = Inr (game, a)"
  shows "\<exists>g0. seed_game eng data = Inr g0 \<and>
     board_buildable_ids g0 = land_nodes eng (game_map g0) \<and>
     (\<forall>b \<in> set (buildings_data data). neighbors eng (b_node_id b) \<noteq> None) \<and>
     board_buildable_ids game =
       board_buildable_ids g0 - (\<Union>b \<in> set (buildings_data data). excluded_by eng (b_node_id b))"
proof -
  from create_game_Inr [OF assms] obtain g0 g1 g2 where
    s: "seed_game eng data = Inr g0" and
    b: "for_each (apply_building eng) g0 (buildings_data data) = Inr g1" and
    r: "for_each apply_road g1 (roads_data data) = Inr g2" and
    f: "same_position g2 game"
    by blast
  have "board_buildable_ids game = board_buildable_ids g2" by (rule same_positionD(5) [OF f])
  also have "\<dots> = board_buildable_ids g1" using road_loop_frame [OF r] by simp
  also have "\<dots> = board_buildable_ids g0 -
      (\<Union>b \<in> set (buildings_data data). excluded_by eng (b_node_id b))"
    by (rule building_loop_buildable [OF b])
  finally show ?thesis
    using s seed_game_fields(5) [OF s] building_loop_neighbors [OF b] by blast
qed

lemma sample_game_built:
  "\<not> isl (create_game_from_advisor_request sample_engine sample_request)"
  by code_simp

lemma idle_game_built:
  "\<not> isl (create_game_from_advisor_request sample_engine idle_request)"
  by code_simp

lemma sample_game_obtained:
  "\<exists>game a. create_game_from_advisor_request sample_engine sample_request = Inr (game, a)"
  using sample_game_built
  by (cases "create_game_from_advisor_request sample_engine sample_request") auto

lemma idle_game_obtained:
  "\<exists>game a. create_game_from_advisor_request sample_engine idle_request = Inr (game, a)"
  using idle_game_built
  by (cases "create_game_from_advisor_request sample_engine idle_request") auto

lemma sample_excluded:
  "excluded_by sample_engine 3 = {2, 3, 4}"
  "excluded_by sample_engine 10 = {9, 10, 11}"
  "excluded_by sample_engine 20 = {19, 20, 21}"
  by (auto simp: excluded_by_def sample_engine_def)

theorem buildable_after_reconstruction_witness:
  "\<exists>game a. create_game_from_advisor_request sample_engine sample_request = Inr (game, a) \<and>
     board_buildable_ids game = {0..53} - {2, 3, 4, 9, 10, 11, 19, 20, 21}"
proof -
  obtain game a where g: "create_game_from_advisor_request sample_engine sample_request = Inr (game, a)"
    using sample_game_obtained by blast
  from buildable_after_reconstruction [OF g] obtain g0 where
    s: "seed_game sample_engine sample_request = Inr g0" and
    l: "board_buildable_ids g0 = land_nodes sample_engine (game_map g0)" and
    n: "\<forall>b \<in> set (buildings_data sample_request). neighbors sample_engine (b_node_id b) \<noteq> None" and
    e: "board_buildable_ids game = board_buildable_ids g0 -
         (\<Union>b \<in> set (buildings_data sample_request). excluded_by sample_engine (b_node_id b))"
    by (elim exE conjE)
  have l': "board_buildable_ids g0 = {0..53}" by (simp add: l sample_engine_def)
  have u: "(\<Union>b \<in> set (buildings_data sample_request). excluded_by sample_engine (b_node_id b))
      = {2, 3, 4, 9, 10, 11, 19, 20, 21}"
    by (simp add: sample_request_def sample_excluded) blast
  have "board_buildable_ids game = {0..53} - {2, 3, 4, 9, 10, 11, 19, 20, 21}"
    by (simp only: e l' u)
  with g show ?thesis by blast
qed

subsection \<open>Building overrides\<close>

lemma apply_building_lookup:
  assumes "apply_building eng g b = Inr g'"
    and "Color_of (b_color b) = Inr c" and "color_to_index g c = Some i"
  shows "color_to_index g' = color_to_index g"
    and "player_state g' (j, f) =
      (if j = i \<and> f = (if b_building b = ''SETTLEMENT'' then ''SETTLEMENTS_AVAILABLE'' else ''CITIES_AVAILABLE'')
       then map_option (\<lambda>s. s - 1) (player_state g (j, f))
       else if j = i \<and> (f = ''VICTORY_POINTS'' \<or> f = ''ACTUAL_VICTORY_POINTS'')
       then map_option (\<lambda>v. v + (if b_building b = ''SETTLEMENT'' then 1 else 2)) (player_state g (j, f))
       else player_state g (j, f))"
proof -
  from apply_building_effect [OF assms(1)] obtain c' i' s v a where
    1: "Color_of (b_color b) = Inr c'" and 2: "color_to_index g c' = Some i'" and
    3: "neighbors eng (b_node_id b) \<noteq> None" and
    4: "player_state g (i', if b_building b = ''SETTLEMENT'' then ''SETTLEMENTS_AVAILABLE'' else ''CITIES_AVAILABLE'') = Some s" and
    5: "player_state g (i', ''VICTORY_POINTS'') = Some v" and
    6: "player_state g (i', ''ACTUAL_VICTORY_POINTS'') = Some a" and
    7: "color_to_index g' = color_to_index g" and
    8: "buildings g' = (buildings g)(b_node_id b \<mapsto>
               (c', if b_building b = ''SETTLEMENT'' then SETTLEMENT else CITY))" and
    9: "player_state g' = (player_state g)
              ((i', if b_building b = ''SETTLEMENT'' then ''SETTLEMENTS_AVAILABLE'' else ''CITIES_AVAILABLE'') \<mapsto> s - 1,
               (i', ''VICTORY_POINTS'') \<mapsto> v + (if b_building b = ''SETTLEMENT'' then 1 else 2),
               (i', ''ACTUAL_VICTORY_POINTS'') \<mapsto> a + (if b_building b = ''SETTLEMENT'' then 1 else 2))"
    by (elim exE conjE)
  from 1 assms(2) have c: "c' = c" by simp
  with 2 assms(3) have i: "i' = i" by simp
  show "color_to_index g' = color_to_index g" by (rule 7)
  show "player_state g' (j, f) =
      (if j = i \<and> f = (if b_building b = ''SETTLEMENT'' then ''SETTLEMENTS_AVAILABLE'' else ''CITIES_AVAILABLE'')
       then map_option (\<lambda>s. s - 1) (player_state g (j, f))
       else if j = i \<and> (f = ''VICTORY_POINTS'' \<or> f = ''ACTUAL_VICTORY_POINTS'')
       then map_option (\<lambda>v. v + (if b_building b = ''SETTLEMENT'' then 1 else 2)) (player_state g (j, f))
       else player_state g (j, f))"
    using 4 5 6 unfolding 9 i by auto
qed

lemma building_step_settlement:
  assumes "apply_building eng g b = Inr g'" and "b_building b = ''SETTLEMENT''"
  shows "\<exists>c i. Color_of (b_color b) = Inr c \<and> color_to_index g c = Some i \<and>
     buildings g' (b_node_id b) = Some (c, SETTLEMENT) \<and>
     (\<exists>s v a.
        player_state g (i, ''SETTLEMENTS_AVAILABLE'') = Some s \<and>
        player_state g' (i, ''SETTLEMENTS_AVAILABLE'') = Some (s - 1) \<and>
        player_state g (i, ''VICTORY_POINTS'') = Some v \<and>
        player_state g' (i, ''VICTORY_POINTS'') = Some (v + 1) \<and>
        player_state g (i, ''ACTUAL_VICTORY_POINTS'') = Some a \<and>
        player_state g' (i, ''ACTUAL_VICTORY_POINTS'') = Some (a + 1)) \<and>
     player_state g' (i, ''CITIES_AVAILABLE'') = player_state g (i, ''CITIES_AVAILABLE'') \<and>
     (\<forall>j f. j \<noteq> i \<longrightarrow> player_state g' (j, f) = player_state g (j, f))"
proof -
  from apply_building_effect [OF assms(1)] obtain c i s v a where
    1: "Color_of (b_color b) = Inr c" and 2: "color_to_index g c = Some i" and
    3: "neighbors eng (b_node_id b) \<noteq> None" and
    4: "player_state g (i, if b_building b = ''SETTLEMENT'' then ''SETTLEMENTS_AVAILABLE'' else ''CITIES_AVAILABLE'') = Some s" and
    5: "player_state g (i, ''VICTORY_POINTS'') = Some v" and
    6: "player_state g (i, ''ACTUAL_VICTORY_POINTS'') = Some a" and
    7: "color_to_index g' = color_to_index g" and
    8: "buildings g' = (buildings g)(b_node_id b \<mapsto>
               (c, if b_building b = ''SETTLEMENT'' then SETTLEMENT else CITY))" and
    9: "player_state g' = (player_state g)
              ((i, if b_building b = ''SETTLEMENT'' then ''SETTLEMENTS_AVAILABLE'' else ''CITIES_AVAILABLE'') \<mapsto> s - 1,
               (i, ''VICTORY_POINTS'') \<mapsto> v + (if b_building b = ''SETTLEMENT'' then 1 else 2),
               (i, ''ACTUAL_VICTORY_POINTS'') \<mapsto> a + (if b_building b = ''SETTLEMENT'' then 1 else 2))"
    by (elim exE conjE)
  have "buildings g' (b_node_id b) = Some (c, SETTLEMENT)" by (simp add: 8 assms(2))
  moreover have "player_state g (i, ''SETTLEMENTS_AVAILABLE'') = Some s" using 4 assms(2) by simp
  moreover have "player_state g' (i, ''SETTLEMENTS_AVAILABLE'') = Some (s - 1)"
    by (simp add: 9 assms(2))
  moreover have "player_state g' (i, ''VICTORY_POINTS'') = Some (v + 1)"
    by (simp add: 9 assms(2))
  moreover have "player_state g' (i, ''ACTUAL_VICTORY_POINTS'') = Some (a + 1)"
    by (simp add: 9 assms(2))
  moreover have "player_state g' (i, ''CITIES_AVAILABLE'') = player_state g (i, ''CITIES_AVAILABLE'')"
    by (simp add: 9 assms(2))
  moreover have "\<forall>j f. j \<noteq> i \<longrightarrow> player_state g' (j, f) = player_state g (j, f)"
    by (simp add: 9)
  ultimately show ?thesis using 1 2 5 6 by blast
qed

lemma building_step_city:
  assumes "apply_building eng g b = Inr g'" and "b_building b \<noteq> ''SETTLEMENT''"
  shows "\<exists>c i. Color_of (b_color b) = Inr c \<and> color_to_index g c = Some i \<and>
     buildings g' (b_node_id b) = Some (c, CITY) \<and>
     (\<exists>s v a.
        player_state g (i, ''CITIES_AVAILABLE'') = Some s \<and>
        player_state g' (i, ''CITIES_AVAILABLE'') = Some (s - 1) \<and>
        player_state g (i, ''VICTORY_POINTS'') = Some v \<and>
        player_state g' (i, ''VICTORY_POINTS'') = Some (v + 2) \<and>
        player_state g (i, ''ACTUAL_VICTORY_POINTS'') = Some a \<and>
        player_state g' (i, ''ACTUAL_VICTORY_POINTS'') = Some (a + 2)) \<and>
     player_state g' (i, ''SETTLEMENTS_AVAILABLE'') = player_state g (i, ''SETTLEMENTS_AVAILABLE'') \<and>
     (\<forall>j f. j \<noteq> i \<longrightarrow> player_state g' (j, f) = player_state g (j, f))"
proof -
  from apply_building_effect [OF assms(1)] obtain c i s v a where
    1: "Color_of (b_color b) = Inr c" and 2: "color_to_index g c = Some i" and
    3: "neighbors eng (b_node_id b) \<noteq> None" and
    4: "player_state g (i, if b_building b = ''SETTLEMENT'' then ''SETTLEMENTS_AVAILABLE'' else ''CITIES_AVAILABLE'') = Some s" and
    5: "player_state g (i, ''VICTORY_POINTS'') = Some v" and
    6: "player_state g (i, ''ACTUAL_VICTORY_POINTS'') = Some a" and
    7: "color_to_index g' = color_to_index g" and
    8: "buildings g' = (buildings g)(b_node_id b \<mapsto>
               (c, if b_building b = ''SETTLEMENT'' then SETTLEMENT else CITY))" and
    9: "player_state g' = (player_state g)
              ((i, if b_building b = ''SETTLEMENT'' then ''SETTLEMENTS_AVAILABLE'' else ''CITIES_AVAILABLE'') \<mapsto> s - 1,
               (i, ''VICTORY_POINTS'') \<mapsto> v + (if b_building b = ''SETTLEMENT'' then 1 else 2),
               (i, ''ACTUAL_VICTORY_POINTS'') \<mapsto> a + (if b_building b = ''SETTLEMENT'' then 1 else 2))"
    by (elim exE conjE)
  have "buildings g' (b_node_id b) = Some (c, CITY)" by (simp add: 8 assms(2))
  moreover have "player_state g (i, ''CITIES_AVAILABLE'') = Some s" using 4 assms(2) by simp
  moreover have "player_state g' (i, ''CITIES_AVAILABLE'') = Some (s - 1)"
    by (simp add: 9 assms(2))
  moreover have "player_state g' (i, ''VICTORY_POINTS'') = Some (v + 2)"
    by (simp add: 9 assms(2))
  moreover have "player_state g' (i, ''ACTUAL_VICTORY_POINTS'') = Some (a + 2)"
    by (simp add: 9 assms(2))
  moreover have "player_state g' (i, ''SETTLEMENTS_AVAILABLE'') = player_state g (i, ''SETTLEMENTS_AVAILABLE'')"
    by (simp add: 9 assms(2))
  moreover have "\<forall>j f. j \<noteq> i \<longrightarrow> player_state g' (j, f) = player_state g (j, f)"
    by (simp add: 9)
  ultimately show ?thesis using 1 2 5 6 by blast
qed

lemma counters_after_loops:
  assumes r: "for_each apply_road g1 rs = Inr g2" and f: "same_position g2 game"
    and k: "k \<in> counter_keys" and nr: "k \<noteq> ''ROADS_AVAILABLE''"
  shows "player_state game (j, k) = player_state g1 (j, k)"
proof -
  have "player_state game (j, k) = player_state g2 (j, k)" by (rule same_positionD(8) [OF f k])
  also have "\<dots> = player_state g1 (j, k)" using road_loop_frame [OF r] nr by simp
  finally show ?thesis .
qed

lemma sample_game_facts:
  "color_to_index sample_game RED = Some 0"
  "color_to_index sample_game BLUE = Some 1"
  "player_state sample_game (0, ''SETTLEMENTS_AVAILABLE'') = Some 5"
  "player_state sample_game (0, ''VICTORY_POINTS'') = Some 0"
  "player_state sample_game (0, ''ACTUAL_VICTORY_POINTS'') = Some 0"
  "player_state sample_game (1, ''CITIES_AVAILABLE'') = Some 4"
  "player_state sample_game (1, ''VICTORY_POINTS'') = Some 0"
  "player_state sample_game (1, ''ACTUAL_VICTORY_POINTS'') = Some 0"
  by code_simp+

lemma sample_color_names:
  "Color_of ''RED'' = Inr RED" "Color_of ''BLUE'' = Inr BLUE"
  by (simp_all add: Color_of_def Color_names_def)

lemma sample_settlement_applied:
  "\<exists>game'. apply_building sample_engine sample_game sample_settlement = Inr game'"
proof -
  have "\<not> isl (apply_building sample_engine sample_game sample_settlement)" by code_simp
  then show ?thesis by (cases "apply_building sample_engine sample_game sample_settlement") auto
qed

lemma sample_request_seats:
  "color_to_index (fst (projr (create_game_from_advisor_request sample_engine sample_request))) RED = Some 0"
  by code_simp

lemma sample_request_blue_seat:
  "color_to_index (fst (projr (create_game_from_advisor_request sample_engine sample_request))) BLUE = Some 1"
  by code_simp

lemma placed_Nil: "placed c t [] = 0"
  by (simp add: placed_def)

lemma placed_Cons:
  "placed c t (b # bs) =
     (if Color_of (b_color b) = Inr c \<and>
         (if b_building b = ''SETTLEMENT'' then SETTLEMENT else CITY) = t then 1 else 0)
     + placed c t bs"
  by (simp add: placed_def)

lemma building_loop_count:
  assumes "for_each (apply_building eng) g bs = Inr g'"
    and "color_to_index g c = Some i"
    and "\<And>c'. color_to_index g c' = Some i \<Longrightarrow> c' = c"
    and "player_state g (i, ''SETTLEMENTS_AVAILABLE'') = Some s"
    and "player_state g (i, ''CITIES_AVAILABLE'') = Some t"
    and "player_state g (i, ''VICTORY_POINTS'') = Some v"
    and "player_state g (i, ''ACTUAL_VICTORY_POINTS'') = Some a"
  shows "player_state g' (i, ''SETTLEMENTS_AVAILABLE'') = Some (s - placed c SETTLEMENT bs) \<and>
     player_state g' (i, ''CITIES_AVAILABLE'') = Some (t - placed c CITY bs) \<and>
     player_state g' (i, ''VICTORY_POINTS'')
       = Some (v + placed c SETTLEMENT bs + 2 * placed c CITY bs) \<and>
     player_state g' (i, ''ACTUAL_VICTORY_POINTS'')
       = Some (a + placed c SETTLEMENT bs + 2 * placed c CITY bs)"
  using assms
proof (induction bs arbitrary: g s t v a)
  case Nil
  from Nil.prems(1,4,5,6,7) show ?case by (simp add: placed_Nil)
next
  case (Cons b bs)
  from Cons.prems(1) obtain g1 where st: "apply_building eng g b = Inr g1"
    and l: "for_each (apply_building eng) g1 bs = Inr g'"
    by (auto split: sum.splits)
  from apply_building_effect [OF st] obtain c1 i1 where
    c1: "Color_of (b_color b) = Inr c1" and i1: "color_to_index g c1 = Some i1"
    by blast
  note lk = apply_building_lookup [OF st c1 i1]
  have ci1: "color_to_index g1 c = Some i" using Cons.prems(2) lk(1) by simp
  have inj1: "\<And>c'. color_to_index g1 c' = Some i \<Longrightarrow> c' = c"
    unfolding lk(1) by (rule Cons.prems(3))
  note p = Cons.prems(4,5,6,7)
  show ?case
  proof (cases "c1 = c")
    case False
    then have ne: "i \<noteq> i1" using i1 Cons.prems(3) by blast
    have 1: "player_state g1 (i, ''SETTLEMENTS_AVAILABLE'') = Some s"
      and 2: "player_state g1 (i, ''CITIES_AVAILABLE'') = Some t"
      and 3: "player_state g1 (i, ''VICTORY_POINTS'') = Some v"
      and 4: "player_state g1 (i, ''ACTUAL_VICTORY_POINTS'') = Some a"
      using ne p by (simp_all add: lk(2))
    from Cons.IH [OF l ci1 inj1 1 2 3 4] c1 False show ?thesis
      by (simp add: placed_Cons)
  next
    case True
    then have eq: "i1 = i" using i1 Cons.prems(2) by simp
    show ?thesis
    proof (cases "b_building b = ''SETTLEMENT''")
      case S: True
      have 1: "player_state g1 (i, ''SETTLEMENTS_AVAILABLE'') = Some (s - 1)"
        and 2: "player_state g1 (i, ''CITIES_AVAILABLE'') = Some t"
        and 3: "player_state g1 (i, ''VICTORY_POINTS'') = Some (v + 1)"
        and 4: "player_state g1 (i, ''ACTUAL_VICTORY_POINTS'') = Some (a + 1)"
        using p by (simp_all add: lk(2) eq S)
      from Cons.IH [OF l ci1 inj1 1 2 3 4] c1 True S show ?thesis
        by (simp add: placed_Cons)
    next
      case C: False
      have 1: "player_state g1 (i, ''SETTLEMENTS_AVAILABLE'') = Some s"
        and 2: "player_state g1 (i, ''CITIES_AVAILABLE'') = Some (t - 1)"
        and 3: "player_state g1 (i, ''VICTORY_POINTS'') = Some (v + 2)"
        and 4: "player_state g1 (i, ''ACTUAL_VICTORY_POINTS'') = Some (a + 2)"
        using p by (simp_all add: lk(2) eq C)
      from Cons.IH [OF l ci1 inj1 1 2 3 4] c1 True C show ?thesis
        by (simp add: placed_Cons)
    qed
  qed
qed

lemma reconstruction_counters:
  assumes g: "create_game_from_advisor_request eng data = Inr (game, adv)"
    and i: "color_to_index game c = Some i"
  shows "player_state game (i, ''SETTLEMENTS_AVAILABLE'')
       = Some (settlements_allotment eng - placed c SETTLEMENT (buildings_data data)) \<and>
     player_state game (i, ''CITIES_AVAILABLE'')
       = Some (cities_allotment eng - placed c CITY (buildings_data data)) \<and>
     player_state game (i, ''VICTORY_POINTS'')
       = Some (placed c SETTLEMENT (buildings_data data) + 2 * placed c CITY (buildings_data data)) \<and>
     player_state game (i, ''ACTUAL_VICTORY_POINTS'')
       = Some (placed c SETTLEMENT (buildings_data data) + 2 * placed c CITY (buildings_data data))"
proof -
  from create_game_Inr [OF g] obtain g0 g1 g2 p where
    a: "Color_of (advised_player data) = Inr adv" and
    s: "seed_game eng data = Inr g0" and
    b: "for_each (apply_building eng) g0 (buildings_data data) = Inr g1" and
    r: "for_each apply_road g1 (roads_data data) = Inr g2" and
    f: "same_position g2 game" and
    p: "color_to_index g2 adv = Some p"
    by (elim exE conjE)
  let ?players = "py_prefix [RED, BLUE, ORANGE, WHITE] (num_players data)"
  have ci0: "color_to_index g0 = index_map ?players" by (rule seed_game_fields(2) [OF s])
  have "color_to_index game = color_to_index g2" by (rule same_positionD(2) [OF f])
  also have "\<dots> = color_to_index g1" using road_loop_frame [OF r] by simp
  also have "\<dots> = color_to_index g0" using building_loop_frame [OF b] by simp
  finally have im: "index_map ?players c = Some i" using i ci0 by simp
  then have il: "i < length ?players"
    using index_map_seats [OF refl, of "num_players data" c i] by simp
  have c0: "color_to_index g0 c = Some i" using im ci0 by simp
  have inj: "\<And>c'. color_to_index g0 c' = Some i \<Longrightarrow> c' = c"
    unfolding ci0 using seat_of_color [OF refl im] by blast
  have ps0: "\<And>k. player_state g0 (i, k) = map_of (PLAYER_INITIAL_STATE eng) k"
    using seed_game_fields(6) [OF s, of i] il by simp
  have 1: "player_state g0 (i, ''SETTLEMENTS_AVAILABLE'') = Some (settlements_allotment eng)"
    and 2: "player_state g0 (i, ''CITIES_AVAILABLE'') = Some (cities_allotment eng)"
    and 3: "player_state g0 (i, ''VICTORY_POINTS'') = Some 0"
    and 4: "player_state g0 (i, ''ACTUAL_VICTORY_POINTS'') = Some 0"
    by (simp_all only: ps0 initial_counters)
  note n = building_loop_count [OF b c0 inj 1 2 3 4]
  have k: "player_state game (i, ''SETTLEMENTS_AVAILABLE'') = player_state g1 (i, ''SETTLEMENTS_AVAILABLE'')"
    "player_state game (i, ''CITIES_AVAILABLE'') = player_state g1 (i, ''CITIES_AVAILABLE'')"
    "player_state game (i, ''VICTORY_POINTS'') = player_state g1 (i, ''VICTORY_POINTS'')"
    "player_state game (i, ''ACTUAL_VICTORY_POINTS'') = player_state g1 (i, ''ACTUAL_VICTORY_POINTS'')"
    by (rule counters_after_loops [OF r f]; simp add: counter_keys_def)+
  from n show ?thesis unfolding k by simp
qed

text \<open>
  Claim C1. One pass of the loop over the building overrides, when it does not raise:
  an override with the token \<^verbatim>\<open>SETTLEMENT\<close> on node \<open>v\<close> for the colour \<open>c\<close>
  stores \<open>(c, SETTLEMENT)\<close> at \<open>v\<close>, takes 1 from the settlement stock of the seat
  of \<open>c\<close> and adds 1 to both of its victory-point counters; an override with the token
  \<^verbatim>\<open>CITY\<close> stores \<open>(c, CITY)\<close>, takes 1 from the city stock and adds 2 to both
  counters; in both cases every counter of every other seat is unchanged. After a
  reconstruction that succeeds, the stock of every seat is its starting allotment less
  the number of overrides of that kind for its colour, and both victory-point counters
  are the number of its settlements plus twice the number of its cities. In particular,
  when the overrides hold two settlements and one city for one colour and nothing for
  another, in any order, the seat of the first has 4 actual victory points, a settlement
  stock of the allotment less 2 and a city stock of the allotment less 1, and the seat
  of the other has 0 actual victory points.
\<close>

theorem building_override_counters:
  "(\<forall>game'. apply_building eng game b = Inr game' \<longrightarrow>
      (b_building b = ''SETTLEMENT'' \<longrightarrow>
        (\<exists>c i. Color_of (b_color b) = Inr c \<and> color_to_index game c = Some i \<and>
           buildings game' (b_node_id b) = Some (c, SETTLEMENT) \<and>
           (\<exists>s v a.
              player_state game (i, ''SETTLEMENTS_AVAILABLE'') = Some s \<and>
              player_state game' (i, ''SETTLEMENTS_AVAILABLE'') = Some (s - 1) \<and>
              player_state game (i, ''VICTORY_POINTS'') = Some v \<and>
              player_state game' (i, ''VICTORY_POINTS'') = Some (v + 1) \<and>
              player_state game (i, ''ACTUAL_VICTORY_POINTS'') = Some a \<and>
              player_state game' (i, ''ACTUAL_VICTORY_POINTS'') = Some (a + 1)) \<and>
           player_state game' (i, ''CITIES_AVAILABLE'') = player_state game (i, ''CITIES_AVAILABLE'') \<and>
           (\<forall>j f. j \<noteq> i \<longrightarrow> player_state game' (j, f) = player_state game (j, f)))) \<and>
      (b_building b = ''CITY'' \<longrightarrow>
        (\<exists>c i. Color_of (b_color b) = Inr c \<and> color_to_index game c = Some i \<and>
           buildings game' (b_node_id b) = Some (c, CITY) \<and>
           (\<exists>s v a.
              player_state game (i, ''CITIES_AVAILABLE'') = Some s \<and>
              player_state game' (i, ''CITIES_AVAILABLE'') = Some (s - 1) \<and>
              player_state game (i, ''VICTORY_POINTS'') = Some v \<and>
              player_state game' (i, ''VICTORY_POINTS'') = Some (v + 2) \<and>
              player_state game (i, ''ACTUAL_VICTORY_POINTS'') = Some a \<and>
              player_state game' (i, ''ACTUAL_VICTORY_POINTS'') = Some (a + 2)) \<and>
           player_state game' (i, ''SETTLEMENTS_AVAILABLE'') = player_state game (i, ''SETTLEMENTS_AVAILABLE'') \<and>
           (\<forall>j f. j \<noteq> i \<longrightarrow> player_state game' (j, f) = player_state game (j, f))))) \<and>
   (\<forall>data g adv c i.
      create_game_from_advisor_request eng data = Inr (g, adv) \<and> color_to_index g c = Some i \<longrightarrow>
      player_state g (i, ''SETTLEMENTS_AVAILABLE'')
        = Some (settlements_allotment eng - placed c SETTLEMENT (buildings_data data)) \<and>
      player_state g (i, ''CITIES_AVAILABLE'')
        = Some (cities_allotment eng - placed c CITY (buildings_data data)) \<and>
      player_state g (i, ''VICTORY_POINTS'')
        = Some (placed c SETTLEMENT (buildings_data data) + 2 * placed c CITY (buildings_data data)) \<and>
      player_state g (i, ''ACTUAL_VICTORY_POINTS'')
        = Some (placed c SETTLEMENT (buildings_data data) + 2 * placed c CITY (buildings_data data))) \<and>
   (\<forall>data g adv c i c' i'.
      create_game_from_advisor_request eng data = Inr (g, adv) \<and> num_players data = 2 \<and>
      color_to_index g c = Some i \<and> color_to_index g c' = Some i' \<and>
      placed c SETTLEMENT (buildings_data data) = 2 \<and> placed c CITY (buildings_data data) = 1 \<and>
      placed c' SETTLEMENT (buildings_data data) = 0 \<and> placed c' CITY (buildings_data data) = 0 \<longrightarrow>
      player_state g (i, ''ACTUAL_VICTORY_POINTS'') = Some 4 \<and>
      player_state g (i', ''ACTUAL_VICTORY_POINTS'') = Some 0 \<and>
      player_state g (i, ''SETTLEMENTS_AVAILABLE'') = Some (settlements_allotment eng - 2) \<and>
      player_state g (i, ''CITIES_AVAILABLE'') = Some (cities_allotment eng - 1))"
proof (intro conjI allI impI)
  fix game'
  assume "apply_building eng game b = Inr game'" and "b_building b = ''SETTLEMENT''"
  then show "\<exists>c i. Color_of (b_color b) = Inr c \<and> color_to_index game c = Some i \<and>
           buildings game' (b_node_id b) = Some (c, SETTLEMENT) \<and>
           (\<exists>s v a.
              player_state game (i, ''SETTLEMENTS_AVAILABLE'') = Some s \<and>
              player_state game' (i, ''SETTLEMENTS_AVAILABLE'') = Some (s - 1) \<and>
              player_state game (i, ''VICTORY_POINTS'') = Some v \<and>
              player_state game' (i, ''VICTORY_POINTS'') = Some (v + 1) \<and>
              player_state game (i, ''ACTUAL_VICTORY_POINTS'') = Some a \<and>
              player_state game' (i, ''ACTUAL_VICTORY_POINTS'') = Some (a + 1)) \<and>
           player_state game' (i, ''CITIES_AVAILABLE'') = player_state game (i, ''CITIES_AVAILABLE'') \<and>
           (\<forall>j f. j \<noteq> i \<longrightarrow> player_state game' (j, f) = player_state game (j, f))"
    by (rule building_step_settlement)
next
  fix game'
  assume a: "apply_building eng game b = Inr game'" and c: "b_building b = ''CITY''"
  from c have "b_building b \<noteq> ''SETTLEMENT''" by simp
  with a show "\<exists>c i. Color_of (b_color b) = Inr c \<and> color_to_index game c = Some i \<and>
           buildings game' (b_node_id b) = Some (c, CITY) \<and>
           (\<exists>s v a.
              player_state game (i, ''CITIES_AVAILABLE'') = Some s \<and>
              player_state game' (i, ''CITIES_AVAILABLE'') = Some (s - 1) \<and>
              player_state game (i, ''VICTORY_POINTS'') = Some v \<and>
              player_state game' (i, ''VICTORY_POINTS'') = Some (v + 2) \<and>
              player_state game (i, ''ACTUAL_VICTORY_POINTS'') = Some a \<and>
              player_state game' (i, ''ACTUAL_VICTORY_POINTS'') = Some (a + 2)) \<and>
           player_state game' (i, ''SETTLEMENTS_AVAILABLE'') = player_state game (i, ''SETTLEMENTS_AVAILABLE'') \<and>
           (\<forall>j f. j \<noteq> i \<longrightarrow> player_state game' (j, f) = player_state game (j, f))"
    by (rule building_step_city)
next
  fix data g adv c i
  assume h: "create_game_from_advisor_request eng data = Inr (g, adv) \<and> color_to_index g c = Some i"
  then have g: "create_game_from_advisor_request eng data = Inr (g, adv)"
    and i: "color_to_index g c = Some i" by simp_all
  note e = reconstruction_counters [OF g i]
  from e show "player_state g (i, ''SETTLEMENTS_AVAILABLE'')
        = Some (settlements_allotment eng - placed c SETTLEMENT (buildings_data data))" by simp
  from e show "player_state g (i, ''CITIES_AVAILABLE'')
        = Some (cities_allotment eng - placed c CITY (buildings_data data))" by simp
  from e show "player_state g (i, ''VICTORY_POINTS'')
        = Some (placed c SETTLEMENT (buildings_data data) + 2 * placed c CITY (buildings_data data))" by simp
  from e show "player_state g (i, ''ACTUAL_VICTORY_POINTS'')
        = Some (placed c SETTLEMENT (buildings_data data) + 2 * placed c CITY (buildings_data data))" by simp
next
  fix data g adv c i c' i'
  assume h: "create_game_from_advisor_request eng data = Inr (g, adv) \<and> num_players data = 2 \<and>
      color_to_index g c = Some i \<and> color_to_index g c' = Some i' \<and>
      placed c SETTLEMENT (buildings_data data) = 2 \<and> placed c CITY (buildings_data data) = 1 \<and>
      placed c' SETTLEMENT (buildings_data data) = 0 \<and> placed c' CITY (buildings_data data) = 0"
  then have g: "create_game_from_advisor_request eng data = Inr (g, adv)"
    and i: "color_to_index g c = Some i" and i': "color_to_index g c' = Some i'"
    and n: "placed c SETTLEMENT (buildings_data data) = 2" "placed c CITY (buildings_data data) = 1"
      "placed c' SETTLEMENT (buildings_data data) = 0" "placed c' CITY (buildings_data data) = 0"
    by simp_all
  note e = reconstruction_counters [OF g i, unfolded n]
  note e' = reconstruction_counters [OF g i', unfolded n]
  from e show "player_state g (i, ''ACTUAL_VICTORY_POINTS'') = Some 4" by simp
  from e' show "player_state g (i', ''ACTUAL_VICTORY_POINTS'') = Some 0" by simp
  from e show "player_state g (i, ''SETTLEMENTS_AVAILABLE'') = Some (settlements_allotment eng - 2)" by simp
  from e show "player_state g (i, ''CITIES_AVAILABLE'') = Some (cities_allotment eng - 1)" by simp
qed

theorem building_override_counters_witness:
  "(\<exists>game'. apply_building sample_engine sample_game sample_settlement = Inr game' \<and>
      buildings game' 3 = Some (RED, SETTLEMENT) \<and>
      player_state game' (0, ''SETTLEMENTS_AVAILABLE'') = Some 4 \<and>
      player_state game' (0, ''VICTORY_POINTS'') = Some 1 \<and>
      player_state game' (0, ''ACTUAL_VICTORY_POINTS'') = Some 1 \<and>
      player_state game' (1, ''ACTUAL_VICTORY_POINTS'') = Some 0) \<and>
   (\<exists>g adv. create_game_from_advisor_request sample_engine sample_request = Inr (g, adv) \<and>
      player_state g (0, ''ACTUAL_VICTORY_POINTS'') = Some 4 \<and>
      player_state g (1, ''ACTUAL_VICTORY_POINTS'') = Some 0 \<and>
      player_state g (0, ''SETTLEMENTS_AVAILABLE'') = Some 3 \<and>
      player_state g (0, ''CITIES_AVAILABLE'') = Some 3)"
proof
  obtain game' where a: "apply_building sample_engine sample_game sample_settlement = Inr game'"
    using sample_settlement_applied by blast
  have t: "b_building sample_settlement = ''SETTLEMENT''" by (simp add: sample_settlement_def)
  have n: "b_node_id sample_settlement = 3" "b_color sample_settlement = ''RED''"
    by (simp_all add: sample_settlement_def)
  note st = building_override_counters [of sample_engine sample_game sample_settlement,
      THEN conjunct1, rule_format, OF a, THEN conjunct1, rule_format, OF t]
  from st obtain c i s v a' where
    c: "Color_of (b_color sample_settlement) = Inr c" and
    i: "color_to_index sample_game c = Some i" and
    b: "buildings game' (b_node_id sample_settlement) = Some (c, SETTLEMENT)" and
    s: "player_state sample_game (i, ''SETTLEMENTS_AVAILABLE'') = Some s"
       "player_state game' (i, ''SETTLEMENTS_AVAILABLE'') = Some (s - 1)" and
    v: "player_state sample_game (i, ''VICTORY_POINTS'') = Some v"
       "player_state game' (i, ''VICTORY_POINTS'') = Some (v + 1)" and
    a': "player_state sample_game (i, ''ACTUAL_VICTORY_POINTS'') = Some a'"
       "player_state game' (i, ''ACTUAL_VICTORY_POINTS'') = Some (a' + 1)" and
    o: "\<forall>j f. j \<noteq> i \<longrightarrow> player_state game' (j, f) = player_state sample_game (j, f)"
    by blast
  from c have c': "c = RED" by (simp add: n sample_color_names)
  with i have i': "i = 0" by (simp add: sample_game_facts)
  from s v a' have "s = 5" "v = 0" "a' = 0" by (simp_all add: i' sample_game_facts)
  from o have "player_state game' (1, ''ACTUAL_VICTORY_POINTS'')
      = player_state sample_game (1, ''ACTUAL_VICTORY_POINTS'')"
    by (simp add: i')
  then have o1: "player_state game' (1, ''ACTUAL_VICTORY_POINTS'') = Some 0"
    by (simp only: sample_game_facts(8))
  with s v a' b a show "\<exists>game'. apply_building sample_engine sample_game sample_settlement = Inr game' \<and>
      buildings game' 3 = Some (RED, SETTLEMENT) \<and>
      player_state game' (0, ''SETTLEMENTS_AVAILABLE'') = Some 4 \<and>
      player_state game' (0, ''VICTORY_POINTS'') = Some 1 \<and>
      player_state game' (0, ''ACTUAL_VICTORY_POINTS'') = Some 1 \<and>
      player_state game' (1, ''ACTUAL_VICTORY_POINTS'') = Some 0"
    by (simp add: c' i' n sample_game_facts)
next
  obtain g adv where g: "create_game_from_advisor_request sample_engine sample_request = Inr (g, adv)"
    using sample_game_obtained by blast
  have red: "color_to_index g RED = Some 0" using sample_request_seats by (simp add: g)
  have blue: "color_to_index g BLUE = Some 1" using sample_request_blue_seat by (simp add: g)
  have d: "num_players sample_request = 2" by (simp add: sample_request_def)
  have n: "placed RED SETTLEMENT (buildings_data sample_request) = 2"
    "placed RED CITY (buildings_data sample_request) = 1"
    "placed BLUE SETTLEMENT (buildings_data sample_request) = 0"
    "placed BLUE CITY (buildings_data sample_request) = 0"
    by (simp_all add: placed_def sample_request_def sample_color_names)
  note ex = building_override_counters [of sample_engine sample_game sample_settlement,
      THEN conjunct2, THEN conjunct2, rule_format, of sample_request g adv RED 0 BLUE 1]
  have "player_state g (0, ''ACTUAL_VICTORY_POINTS'') = Some 4 \<and>
      player_state g (1, ''ACTUAL_VICTORY_POINTS'') = Some 0 \<and>
      player_state g (0, ''SETTLEMENTS_AVAILABLE'') = Some (settlements_allotment sample_engine - 2) \<and>
      player_state g (0, ''CITIES_AVAILABLE'') = Some (cities_allotment sample_engine - 1)"
    by (rule ex) (simp add: g d red blue n)
  with g show "\<exists>g adv. create_game_from_advisor_request sample_engine sample_request = Inr (g, adv) \<and>
      player_state g (0, ''ACTUAL_VICTORY_POINTS'') = Some 4 \<and>
      player_state g (1, ''ACTUAL_VICTORY_POINTS'') = Some 0 \<and>
      player_state g (0, ''SETTLEMENTS_AVAILABLE'') = Some 3 \<and>
      player_state g (0, ''CITIES_AVAILABLE'') = Some 3"
    by (simp add: sample_engine_def)
qed

lemma apply_building_token:
  "b_building b \<noteq> ''SETTLEMENT'' \<Longrightarrow>
   apply_building eng g b = apply_building eng g (b\<lparr>b_building := ''CITY''\<rparr>)"
  by (simp add: apply_building_def)

lemma create_game_buildings_cong:
  assumes "\<And>g. for_each (apply_building eng) g bs = for_each (apply_building eng) g bs'"
  shows "create_game_from_advisor_request eng (data\<lparr>buildings_data := bs\<rparr>)
     = create_game_from_advisor_request eng (data\<lparr>buildings_data := bs'\<rparr>)"
proof -
  have s: "\<And>x. seed_game eng (data\<lparr>buildings_data := x\<rparr>) = seed_game eng data"
    by (simp add: seed_game_def Let_def cong: sum.case_cong if_cong)
  have f: "\<And>x g a. finish_game eng (data\<lparr>buildings_data := x\<rparr>) g a = finish_game eng data g a"
    by (simp add: finish_game_def Let_def cong: option.case_cong sum.case_cong)
  show ?thesis
    by (simp add: create_game_from_advisor_request_def s f assms cong: sum.case_cong)
qed

lemma misspelt_building_applied:
  "\<exists>game'. apply_building sample_engine sample_game misspelt_building = Inr game'"
proof -
  have "\<not> isl (apply_building sample_engine sample_game misspelt_building)" by code_simp
  then show ?thesis by (cases "apply_building sample_engine sample_game misspelt_building") auto
qed

text \<open>
  Claim C10. A building override whose token is any string other than
  \<^verbatim>\<open>SETTLEMENT\<close> is treated as a city and the token is not rejected: the pass of
  the loop has the outcome it has for the token \<^verbatim>\<open>CITY\<close>, and so has the whole
  reconstruction; when the pass does not raise it stores \<open>(c, CITY)\<close> at the node,
  takes 1 from the city stock of the seat of the colour and adds 2 to both of its
  victory-point counters.
\<close>

theorem unknown_building_token_is_city:
  assumes "b_building b \<noteq> ''SETTLEMENT''"
  shows "apply_building eng game b = apply_building eng game (b\<lparr>b_building := ''CITY''\<rparr>) \<and>
    (\<forall>game'. apply_building eng game b = Inr game' \<longrightarrow>
       (\<exists>c i. Color_of (b_color b) = Inr c \<and> color_to_index game c = Some i \<and>
           buildings game' (b_node_id b) = Some (c, CITY) \<and>
           (\<exists>s v a.
              player_state game (i, ''CITIES_AVAILABLE'') = Some s \<and>
              player_state game' (i, ''CITIES_AVAILABLE'') = Some (s - 1) \<and>
              player_state game (i, ''VICTORY_POINTS'') = Some v \<and>
              player_state game' (i, ''VICTORY_POINTS'') = Some (v + 2) \<and>
              player_state game (i, ''ACTUAL_VICTORY_POINTS'') = Some a \<and>
              player_state game' (i, ''ACTUAL_VICTORY_POINTS'') = Some (a + 2)) \<and>
           player_state game' (i, ''SETTLEMENTS_AVAILABLE'') = player_state game (i, ''SETTLEMENTS_AVAILABLE'') \<and>
           (\<forall>j f. j \<noteq> i \<longrightarrow> player_state game' (j, f) = player_state game (j, f)))) \<and>
    create_game_from_advisor_request eng (data\<lparr>buildings_data := bs @ b # bs'\<rparr>)
      = create_game_from_advisor_request eng
          (data\<lparr>buildings_data := bs @ b\<lparr>b_building := ''CITY''\<rparr> # bs'\<rparr>)"
proof (intro conjI allI impI)
  show "apply_building eng game b = apply_building eng game (b\<lparr>b_building := ''CITY''\<rparr>)"
    using assms by (rule apply_building_token)
next
  fix game'
  assume "apply_building eng game b = Inr game'"
  then show "\<exists>c i. Color_of (b_color b) = Inr c \<and> color_to_index game c = Some i \<and>
           buildings game' (b_node_id b) = Some (c, CITY) \<and>
           (\<exists>s v a.
              player_state game (i, ''CITIES_AVAILABLE'') = Some s \<and>
              player_state game' (i, ''CITIES_AVAILABLE'') = Some (s - 1) \<and>
              player_state game (i, ''VICTORY_POINTS'') = Some v \<and>
              player_state game' (i, ''VICTORY_POINTS'') = Some (v + 2) \<and>
              player_state game (i, ''ACTUAL_VICTORY_POINTS'') = Some a \<and>
              player_state game' (i, ''ACTUAL_VICTORY_POINTS'') = Some (a + 2)) \<and>
           player_state game' (i, ''SETTLEMENTS_AVAILABLE'') = player_state game (i, ''SETTLEMENTS_AVAILABLE'') \<and>
           (\<forall>j f. j \<noteq> i \<longrightarrow> player_state game' (j, f) = player_state game (j, f))"
    using assms by (rule building_step_city)
next
  show "create_game_from_advisor_request eng (data\<lparr>buildings_data := bs @ b # bs'\<rparr>)
      = create_game_from_advisor_request eng
          (data\<lparr>buildings_data := bs @ b\<lparr>b_building := ''CITY''\<rparr> # bs'\<rparr>)"
  proof (rule create_game_buildings_cong)
    fix g
    show "for_each (apply_building eng) g (bs @ b # bs')
        = for_each (apply_building eng) g (bs @ b\<lparr>b_building := ''CITY''\<rparr> # bs')"
      by (simp add: for_each_append apply_building_token [OF assms, symmetric] cong: sum.case_cong)
  qed
qed

theorem unknown_building_token_is_city_witness:
  "apply_building sample_engine sample_game misspelt_building
     = apply_building sample_engine sample_game (misspelt_building\<lparr>b_building := ''CITY''\<rparr>) \<and>
   (\<exists>game'. apply_building sample_engine sample_game misspelt_building = Inr game' \<and>
      buildings game' 7 = Some (BLUE, CITY) \<and>
      player_state game' (1, ''CITIES_AVAILABLE'') = Some 3 \<and>
      player_state game' (1, ''VICTORY_POINTS'') = Some 2 \<and>
      player_state game' (1, ''ACTUAL_VICTORY_POINTS'') = Some 2) \<and>
   create_game_from_advisor_request sample_engine (sample_request\<lparr>buildings_data := [] @ misspelt_building # []\<rparr>)
     = create_game_from_advisor_request sample_engine
         (sample_request\<lparr>buildings_data := [] @ misspelt_building\<lparr>b_building := ''CITY''\<rparr> # []\<rparr>)"
proof -
  have t: "b_building misspelt_building \<noteq> ''SETTLEMENT''" by (simp add: misspelt_building_def)
  have n: "b_node_id misspelt_building = 7" "b_color misspelt_building = ''BLUE''"
    by (simp_all add: misspelt_building_def)
  note th = unknown_building_token_is_city [OF t, where eng = sample_engine and game = sample_game
      and data = sample_request and bs = "[]" and bs' = "[]"]
  obtain game' where a: "apply_building sample_engine sample_game misspelt_building = Inr game'"
    using misspelt_building_applied by blast
  from th a obtain c i s v a' where
    c: "Color_of (b_color misspelt_building) = Inr c" and
    i: "color_to_index sample_game c = Some i" and
    b: "buildings game' (b_node_id misspelt_building) = Some (c, CITY)" and
    s: "player_state sample_game (i, ''CITIES_AVAILABLE'') = Some s"
       "player_state game' (i, ''CITIES_AVAILABLE'') = Some (s - 1)" and
    v: "player_state sample_game (i, ''VICTORY_POINTS'') = Some v"
       "player_state game' (i, ''VICTORY_POINTS'') = Some (v + 2)" and
    a': "player_state sample_game (i, ''ACTUAL_VICTORY_POINTS'') = Some a'"
       "player_state game' (i, ''ACTUAL_VICTORY_POINTS'') = Some (a' + 2)"
    by blast
  from c have c': "c = BLUE" by (simp add: n sample_color_names)
  with i have i': "i = 1" by (simp add: sample_game_facts)
  from s(1) v(1) a'(1) have "s = 4" "v = 0" "a' = 0" unfolding i' by (simp_all only: sample_game_facts option.inject)
  with s(2) v(2) a'(2) b have
    "buildings game' 7 = Some (BLUE, CITY) \<and>
      player_state game' (1, ''CITIES_AVAILABLE'') = Some 3 \<and>
      player_state game' (1, ''VICTORY_POINTS'') = Some 2 \<and>
      player_state game' (1, ''ACTUAL_VICTORY_POINTS'') = Some 2"
    unfolding i' c' n by simp
  with a th show ?thesis by blast
qed

subsection \<open>Road overrides\<close>

lemma road_loop_last:
  assumes l: "for_each apply_road g (rs1 @ r # rs2) = Inr g'"
    and k: "\<forall>r' \<in> set rs2. (r_edge_id r' = r_edge_id r \<or>
          r_edge_id r' = (snd (r_edge_id r), fst (r_edge_id r))) \<longrightarrow> r_color r' = r_color r"
  shows "\<exists>c. Color_of (r_color r) = Inr c \<and> roads g' (r_edge_id r) = Some c \<and>
     roads g' (snd (r_edge_id r), fst (r_edge_id r)) = Some c"
proof -
  from l obtain ga where "for_each apply_road ga (r # rs2) = Inr g'"
    by (auto simp: for_each_append split: sum.splits)
  then obtain gb where a: "apply_road ga r = Inr gb" and t: "for_each apply_road gb rs2 = Inr g'"
    by (auto split: sum.splits)
  from apply_road_effect [OF a] obtain c where
    c: "Color_of (r_color r) = Inr c" and
    g: "roads gb = (roads ga)(r_edge_id r \<mapsto> c, (snd (r_edge_id r), fst (r_edge_id r)) \<mapsto> c)"
    by blast
  have "roads gb (r_edge_id r) = Some c \<and> roads gb (snd (r_edge_id r), fst (r_edge_id r)) = Some c"
    unfolding g by simp
  from road_loop_keeps [OF t c this k] c show ?thesis by blast
qed

text \<open>
  Claim C9 says that after the reconstruction the road map holds both directional keys
  of every road override with the owner of that override. The sample request has the
  override of edge \<open>(3, 4)\<close> for RED followed by the override of \<open>(4, 3)\<close> for
  BLUE; it is reconstructed, and the road map has BLUE at \<open>(3, 4)\<close>.
\<close>

theorem road_override_counterexample:
  "\<lparr>r_edge_id = (3, 4), r_color = ''RED''\<rparr> \<in> set (roads_data sample_request) \<and>
   \<not> isl (create_game_from_advisor_request sample_engine sample_request) \<and>
   roads (fst (projr (create_game_from_advisor_request sample_engine sample_request))) (3, 4)
     = Some BLUE"
  by code_simp

text \<open>
  Claim C9 as amended. One pass of the loop over the road overrides, when it does not
  raise, stores the owner under both directional keys of the edge and takes 1 from the
  road stock of the owner's seat. After a reconstruction that succeeds, for every road
  override with edge \<open>(a, b)\<close> and owner \<open>c\<close> such that every later override of
  \<open>(a, b)\<close> or \<open>(b, a)\<close> names the same owner, the road map holds both \<open>(a, b)\<close> and
  \<open>(b, a)\<close> with \<open>c\<close>; and the road stock of every seat is the starting allotment
  less the number of road overrides of its colour, 1 for each.
\<close>

theorem road_overrides_registered:
  assumes "create_game_from_advisor_request (eng :: ('n, 'e) Engine) data = Inr (game, adv)"
  shows "(\<forall>r (g :: ('n, 'e) Game) g'. apply_road g r = Inr g' \<longrightarrow>
        (\<exists>c i v. Color_of (r_color r) = Inr c \<and> color_to_index g c = Some i \<and>
           roads g' (r_edge_id r) = Some c \<and>
           roads g' (snd (r_edge_id r), fst (r_edge_id r)) = Some c \<and>
           player_state g (i, ''ROADS_AVAILABLE'') = Some v \<and>
           player_state g' (i, ''ROADS_AVAILABLE'') = Some (v - 1))) \<and>
     (\<forall>rs1 r rs2. roads_data data = rs1 @ r # rs2 \<and>
        (\<forall>r' \<in> set rs2. (r_edge_id r' = r_edge_id r \<or>
            r_edge_id r' = (snd (r_edge_id r), fst (r_edge_id r))) \<longrightarrow> r_color r' = r_color r) \<longrightarrow>
        (\<exists>c. Color_of (r_color r) = Inr c \<and> roads game (r_edge_id r) = Some c \<and>
           roads game (snd (r_edge_id r), fst (r_edge_id r)) = Some c)) \<and>
     (\<forall>c i. color_to_index game c = Some i \<longrightarrow>
        player_state game (i, ''ROADS_AVAILABLE'') =
          Some (roads_allotment eng -
            int (length (filter (\<lambda>r. Color_of (r_color r) = Inr c) (roads_data data)))))"
proof -
  from create_game_Inr [OF assms] obtain g0 g1 g2 p where
    a: "Color_of (advised_player data) = Inr adv" and
    s: "seed_game eng data = Inr g0" and
    b: "for_each (apply_building eng) g0 (buildings_data data) = Inr g1" and
    r: "for_each apply_road g1 (roads_data data) = Inr g2" and
    f: "same_position g2 game" and
    p: "color_to_index g2 adv = Some p"
    by (elim exE conjE)
  let ?players = "py_prefix [RED, BLUE, ORANGE, WHITE] (num_players data)"
  have rg: "roads game = roads g2" by (rule same_positionD(4) [OF f])
  have ci1: "color_to_index g1 = index_map ?players"
    using building_loop_frame [OF b] seed_game_fields(2) [OF s] by simp
  have ci: "color_to_index game = index_map ?players"
    using same_positionD(2) [OF f] road_loop_frame [OF r] ci1 by simp
  show ?thesis
  proof (intro conjI allI impI)
    fix r and g g' :: "('n, 'e) Game"
    assume "apply_road g r = Inr g'"
    from apply_road_effect [OF this] obtain c i v where
      1: "Color_of (r_color r) = Inr c" and 2: "color_to_index g c = Some i" and
      3: "player_state g (i, ''ROADS_AVAILABLE'') = Some v" and
      4: "roads g' = (roads g)(r_edge_id r \<mapsto> c, (snd (r_edge_id r), fst (r_edge_id r)) \<mapsto> c)" and
      5: "player_state g' = (player_state g)((i, ''ROADS_AVAILABLE'') \<mapsto> v - 1)" and
      6: "color_to_index g' = color_to_index g"
      by (elim exE conjE)
    have "roads g' (r_edge_id r) = Some c \<and>
        roads g' (snd (r_edge_id r), fst (r_edge_id r)) = Some c"
      unfolding 4 by simp
    moreover have "player_state g' (i, ''ROADS_AVAILABLE'') = Some (v - 1)"
      unfolding 5 by simp
    ultimately show "\<exists>c i v. Color_of (r_color r) = Inr c \<and> color_to_index g c = Some i \<and>
           roads g' (r_edge_id r) = Some c \<and>
           roads g' (snd (r_edge_id r), fst (r_edge_id r)) = Some c \<and>
           player_state g (i, ''ROADS_AVAILABLE'') = Some v \<and>
           player_state g' (i, ''ROADS_AVAILABLE'') = Some (v - 1)"
      using 1 2 3 by blast
  next
    fix rs1 r rs2
    assume h: "roads_data data = rs1 @ r # rs2 \<and>
        (\<forall>r' \<in> set rs2. (r_edge_id r' = r_edge_id r \<or>
            r_edge_id r' = (snd (r_edge_id r), fst (r_edge_id r))) \<longrightarrow> r_color r' = r_color r)"
    then have l: "for_each apply_road g1 (rs1 @ r # rs2) = Inr g2" using r by simp
    from h have k: "\<forall>r' \<in> set rs2. (r_edge_id r' = r_edge_id r \<or>
            r_edge_id r' = (snd (r_edge_id r), fst (r_edge_id r))) \<longrightarrow> r_color r' = r_color r"
      by (rule conjunct2)
    from road_loop_last [OF l k]
    show "\<exists>c. Color_of (r_color r) = Inr c \<and> roads game (r_edge_id r) = Some c \<and>
           roads game (snd (r_edge_id r), fst (r_edge_id r)) = Some c"
      unfolding rg .
  next
    fix c i
    assume "color_to_index game c = Some i"
    then have i: "index_map ?players c = Some i" by (simp add: ci)
    then have il: "i < length ?players" using index_map_seats [OF refl, of "num_players data" c i] by simp
    have c1: "color_to_index g1 c = Some i" using i by (simp add: ci1)
    have inj: "\<And>c'. color_to_index g1 c' = Some i \<Longrightarrow> c' = c"
      unfolding ci1 using seat_of_color [OF refl i] by blast
    have "player_state g1 (i, ''ROADS_AVAILABLE'') = player_state g0 (i, ''ROADS_AVAILABLE'')"
      using building_loop_frame [OF b] by simp
    also have "\<dots> = Some (roads_allotment eng)"
      using seed_game_fields(6) [OF s, of i "''ROADS_AVAILABLE''"] il by (simp add: initial_counters)
    finally have v: "player_state g1 (i, ''ROADS_AVAILABLE'') = Some (roads_allotment eng)" .
    have "player_state game (i, ''ROADS_AVAILABLE'') = player_state g2 (i, ''ROADS_AVAILABLE'')"
      by (rule same_positionD(8) [OF f]) (simp add: counter_keys_def)
    also have "\<dots> = Some (roads_allotment eng -
            int (length (filter (\<lambda>r. Color_of (r_color r) = Inr c) (roads_data data))))"
      by (rule road_loop_count [OF r c1 inj v])
    finally show "player_state game (i, ''ROADS_AVAILABLE'') =
          Some (roads_allotment eng -
            int (length (filter (\<lambda>r. Color_of (r_color r) = Inr c) (roads_data data))))" .
  qed
qed

theorem road_overrides_registered_witness:
  "(\<exists>g'. apply_road sample_game \<lparr>r_edge_id = (3, 4), r_color = ''RED''\<rparr> = Inr g' \<and>
      roads g' (3, 4) = Some RED \<and> roads g' (4, 3) = Some RED \<and>
      player_state g' (0, ''ROADS_AVAILABLE'') = Some 14) \<and>
   (\<exists>game adv. create_game_from_advisor_request sample_engine sample_request = Inr (game, adv) \<and>
     roads game (4, 3) = Some BLUE \<and> roads game (3, 4) = Some BLUE \<and>
     player_state game (0, ''ROADS_AVAILABLE'') = Some 14 \<and>
     player_state game (1, ''ROADS_AVAILABLE'') = Some 14)"
proof -
  obtain game adv where g: "create_game_from_advisor_request sample_engine sample_request = Inr (game, adv)"
    using sample_game_obtained by blast
  let ?r1 = "\<lparr>r_edge_id = (3, 4), r_color = ''RED''\<rparr>"
  let ?r2 = "\<lparr>r_edge_id = (4, 3), r_color = ''BLUE''\<rparr>"
  note th = road_overrides_registered [OF g]
  have "\<not> isl (apply_road sample_game ?r1)" by code_simp
  then obtain g' where a: "apply_road sample_game ?r1 = Inr g'"
    by (cases "apply_road sample_game ?r1") auto
  from th [THEN conjunct1, rule_format, OF a] obtain c i v where
    c: "Color_of (r_color ?r1) = Inr c" and i: "color_to_index sample_game c = Some i" and
    r1: "roads g' (r_edge_id ?r1) = Some c" and
    r2: "roads g' (snd (r_edge_id ?r1), fst (r_edge_id ?r1)) = Some c" and
    v: "player_state sample_game (i, ''ROADS_AVAILABLE'') = Some v" and
    v': "player_state g' (i, ''ROADS_AVAILABLE'') = Some (v - 1)"
    by (elim exE conjE)
  from c have c': "c = RED" by (simp add: sample_color_names)
  with i have i': "i = 0" by (simp add: sample_game_facts)
  have "player_state sample_game (0, ''ROADS_AVAILABLE'') = Some 15" by code_simp
  with v have v15: "v = 15" by (simp add: i')
  from a r1 r2 v' have step: "\<exists>g'. apply_road sample_game ?r1 = Inr g' \<and>
      roads g' (3, 4) = Some RED \<and> roads g' (4, 3) = Some RED \<and>
      player_state g' (0, ''ROADS_AVAILABLE'') = Some 14"
    by (simp add: c' i' v15)
  have d: "roads_data sample_request = [?r1] @ ?r2 # []" by (simp add: sample_request_def)
  have k: "\<forall>r' \<in> set []. (r_edge_id r' = r_edge_id ?r2 \<or>
      r_edge_id r' = (snd (r_edge_id ?r2), fst (r_edge_id ?r2))) \<longrightarrow> r_color r' = r_color ?r2"
    by simp
  have red: "color_to_index game RED = Some 0" using sample_request_seats by (simp add: g)
  have blue: "color_to_index game BLUE = Some 1" using sample_request_blue_seat by (simp add: g)
  note last = th [THEN conjunct2, THEN conjunct1, rule_format, of "[?r1]" ?r2 "[]"]
  have "\<exists>c. Color_of (r_color ?r2) = Inr c \<and> roads game (r_edge_id ?r2) = Some c \<and>
           roads game (snd (r_edge_id ?r2), fst (r_edge_id ?r2)) = Some c"
    by (rule last) (simp add: d)
  then have e: "roads game (4, 3) = Some BLUE \<and> roads game (3, 4) = Some BLUE"
    by (simp add: sample_color_names)
  note stock = th [THEN conjunct2, THEN conjunct2, rule_format]
  from stock [OF red] have s0: "player_state game (0, ''ROADS_AVAILABLE'') = Some 14"
    by (simp add: sample_request_def sample_engine_def sample_color_names)
  from stock [OF blue] have s1: "player_state game (1, ''ROADS_AVAILABLE'') = Some 14"
    by (simp add: sample_request_def sample_engine_def sample_color_names)
  from step g e s0 s1 show ?thesis by blast
qed

subsection \<open>Hand and development-card overrides\<close>

lemma fold_set_resource_filter:
  "fold (set_resource p) (filter (\<lambda>item. dict_in (fst item) RESOURCE_MAP) items) g
     = fold (set_resource p) items g"
  by (induction items arbitrary: g) (auto simp: set_resource_def)

lemma fold_set_dev_card_filter:
  "fold (set_dev_card p) (filter (\<lambda>item. dict_in (fst item) DEV_CARD_MAP) items) g
     = fold (set_dev_card p) items g"
  by (induction items arbitrary: g) (auto simp: set_dev_card_def)

text \<open>
  Claim C6 says that a key of \<^verbatim>\<open>player_resources\<close> or \<^verbatim>\<open>player_dev_cards\<close>
  that is not a recognized token makes the reconstruction fail. The sample request has
  the keys \<^verbatim>\<open>GOLD\<close> and \<^verbatim>\<open>WIZARD\<close>; it is reconstructed, with the wood and the
  knight of the request in the hand of the advised player and no entry for either
  unknown key.
\<close>

theorem unknown_hand_keys_counterexample:
  "\<not> dict_in ''GOLD'' RESOURCE_MAP \<and> \<not> dict_in ''WIZARD'' DEV_CARD_MAP \<and>
   (''GOLD'', 3) \<in> set (player_resources sample_request) \<and>
   (''WIZARD'', 5) \<in> set (player_dev_cards sample_request) \<and>
   \<not> isl (create_game_from_advisor_request sample_engine sample_request) \<and>
   player_state (fst (projr (create_game_from_advisor_request sample_engine sample_request)))
     (0, ''WOOD_IN_HAND'') = Some 2 \<and>
   player_state (fst (projr (create_game_from_advisor_request sample_engine sample_request)))
     (0, ''KNIGHT_IN_HAND'') = Some 1 \<and>
   player_state (fst (projr (create_game_from_advisor_request sample_engine sample_request)))
     (0, ''GOLD_IN_HAND'') = None \<and>
   player_state (fst (projr (create_game_from_advisor_request sample_engine sample_request)))
     (0, ''WIZARD_IN_HAND'') = None"
  by code_simp

text \<open>
  Claim C6 as amended. A key of \<^verbatim>\<open>player_resources\<close> that is not in
  \<^verbatim>\<open>RESOURCE_MAP\<close>, or of \<^verbatim>\<open>player_dev_cards\<close> that is not in
  \<^verbatim>\<open>DEV_CARD_MAP\<close>, is skipped and the other overrides are applied: the
  reconstruction has the outcome it has for the request without these keys.
\<close>

theorem unknown_hand_keys_ignored:
  "create_game_from_advisor_request eng
     (data\<lparr>player_resources := filter (\<lambda>item. dict_in (fst item) RESOURCE_MAP) (player_resources data),
           player_dev_cards := filter (\<lambda>item. dict_in (fst item) DEV_CARD_MAP) (player_dev_cards data)\<rparr>)
   = create_game_from_advisor_request eng data"
proof -
  let ?d = "data\<lparr>player_resources := filter (\<lambda>item. dict_in (fst item) RESOURCE_MAP) (player_resources data),
           player_dev_cards := filter (\<lambda>item. dict_in (fst item) DEV_CARD_MAP) (player_dev_cards data)\<rparr>"
  have s: "seed_game eng ?d = seed_game eng data"
    by (simp add: seed_game_def Let_def cong: sum.case_cong if_cong)
  have f: "\<And>g a. finish_game eng ?d g a = finish_game eng data g a"
    by (simp add: finish_game_def Let_def fold_set_resource_filter fold_set_dev_card_filter
        cong: option.case_cong sum.case_cong)
  show ?thesis
    by (simp add: create_game_from_advisor_request_def s f cong: sum.case_cong)
qed

theorem unknown_hand_keys_ignored_witness:
  "create_game_from_advisor_request sample_engine
     (sample_request\<lparr>player_resources := [(''WOOD'', 2)], player_dev_cards := [(''KNIGHT'', 1)]\<rparr>)
   = create_game_from_advisor_request sample_engine sample_request \<and>
   \<not> isl (create_game_from_advisor_request sample_engine sample_request)"
proof -
  have r: "filter (\<lambda>item. dict_in (fst item) RESOURCE_MAP) (player_resources sample_request)
      = [(''WOOD'', 2)]"
    by (simp add: sample_request_def dict_in_def RESOURCE_MAP_def)
  have d: "filter (\<lambda>item. dict_in (fst item) DEV_CARD_MAP) (player_dev_cards sample_request)
      = [(''KNIGHT'', 1)]"
    by (simp add: sample_request_def dict_in_def DEV_CARD_MAP_def)
  from unknown_hand_keys_ignored [of sample_engine sample_request] sample_game_built
  show ?thesis unfolding r d by simp
qed

section \<open>Properties of the endpoint and of the explanations\<close>

subsection \<open>No legal action\<close>

lemma seats_have_points:
  assumes "create_game_from_advisor_request eng data = Inr (game, adv)"
  shows "\<forall>c \<in> set (colors game). \<exists>i v. color_to_index game c = Some i \<and>
     player_state game (i, ''ACTUAL_VICTORY_POINTS'') = Some v"
proof
  fix c
  assume c: "c \<in> set (colors game)"
  from create_game_Inr [OF assms] obtain g0 g1 g2 p where
    a: "Color_of (advised_player data) = Inr adv" and
    s: "seed_game eng data = Inr g0" and
    b: "for_each (apply_building eng) g0 (buildings_data data) = Inr g1" and
    r: "for_each apply_road g1 (roads_data data) = Inr g2" and
    f: "same_position g2 game" and
    p: "color_to_index g2 adv = Some p"
    by (elim exE conjE)
  let ?players = "py_prefix [RED, BLUE, ORANGE, WHITE] (num_players data)"
  have cs: "colors game = ?players"
    using same_positionD(1) [OF f] road_loop_frame [OF r] building_loop_frame [OF b]
      seed_game_fields(1) [OF s] by simp
  have ci: "color_to_index game = index_map ?players"
    using same_positionD(2) [OF f] road_loop_frame [OF r] building_loop_frame [OF b]
      seed_game_fields(2) [OF s] by simp
  from c obtain i where i: "i < length ?players" "?players ! i = c"
    unfolding cs in_set_conv_nth by blast
  then have "index_map ?players c = Some i"
    using index_map_seats [OF refl, of "num_players data" c i] by simp
  then have 1: "color_to_index game c = Some i" by (simp add: ci)
  have "player_state g0 (i, ''ACTUAL_VICTORY_POINTS'') = Some 0"
    using seed_game_fields(6) [OF s, of i "''ACTUAL_VICTORY_POINTS''"] i(1)
    by (simp add: initial_counters)
  then have "(i, ''ACTUAL_VICTORY_POINTS'') \<in> dom (player_state g0)" by blast
  then have "(i, ''ACTUAL_VICTORY_POINTS'') \<in> dom (player_state g1)"
    using building_loop_frame [OF b] by blast
  then have "(i, ''ACTUAL_VICTORY_POINTS'') \<in> dom (player_state g2)"
    using road_loop_frame [OF r] by blast
  then have "(i, ''ACTUAL_VICTORY_POINTS'') \<in> dom (player_state game)"
    using same_positionD(7) [OF f] by blast
  then obtain v where "player_state game (i, ''ACTUAL_VICTORY_POINTS'') = Some v" by blast
  with 1 show "\<exists>i v. color_to_index game c = Some i \<and>
     player_state game (i, ''ACTUAL_VICTORY_POINTS'') = Some v" by blast
qed

lemma victory_points_loop:
  assumes "\<forall>c \<in> set cs. \<exists>i v. color_to_index g c = Some i \<and>
     player_state g (i, ''ACTUAL_VICTORY_POINTS'') = Some v"
  shows "\<exists>vps. for_each
       (\<lambda>vps c. case victory_points_of g c of Inl e \<Rightarrow> Inl e | Inr item \<Rightarrow> Inr (vps @ [item]))
       acc cs = Inr (acc @ vps) \<and>
     list_all2 (\<lambda>c item. fst item = c \<and> (\<exists>i. color_to_index g c = Some i \<and>
        player_state g (i, ''ACTUAL_VICTORY_POINTS'') = Some (snd item))) cs vps"
  using assms
proof (induction cs arbitrary: acc)
  case Nil
  then show ?case by simp
next
  case (Cons c cs)
  from Cons.prems obtain i v where i: "color_to_index g c = Some i"
    and v: "player_state g (i, ''ACTUAL_VICTORY_POINTS'') = Some v"
    by auto
  have st: "victory_points_of g c = Inr (c, v)"
    by (simp add: victory_points_of_def player_key_def i v)
  from Cons.prems have "\<forall>c \<in> set cs. \<exists>i v. color_to_index g c = Some i \<and>
     player_state g (i, ''ACTUAL_VICTORY_POINTS'') = Some v" by simp
  from Cons.IH [OF this, of "acc @ [(c, v)]"] obtain vps where
    l: "for_each
       (\<lambda>vps c. case victory_points_of g c of Inl e \<Rightarrow> Inl e | Inr item \<Rightarrow> Inr (vps @ [item]))
       (acc @ [(c, v)]) cs = Inr ((acc @ [(c, v)]) @ vps)" and
    r: "list_all2 (\<lambda>c item. fst item = c \<and> (\<exists>i. color_to_index g c = Some i \<and>
        player_state g (i, ''ACTUAL_VICTORY_POINTS'') = Some (snd item))) cs vps"
    by blast
  have "for_each
       (\<lambda>vps c. case victory_points_of g c of Inl e \<Rightarrow> Inl e | Inr item \<Rightarrow> Inr (vps @ [item]))
       acc (c # cs) = Inr (acc @ (c, v) # vps)"
    using l by (simp add: st)
  moreover have "list_all2 (\<lambda>c item. fst item = c \<and> (\<exists>i. color_to_index g c = Some i \<and>
        player_state g (i, ''ACTUAL_VICTORY_POINTS'') = Some (snd item))) (c # cs) ((c, v) # vps)"
    using r i v by simp
  ultimately show ?case by blast
qed

lemma idle_request_actions:
  "playable_actions (fst (projr (create_game_from_advisor_request sample_engine idle_request))) = []"
  by code_simp

text \<open>
  Claim C7. For a request whose reconstruction succeeds with an empty list of legal
  actions, the endpoint answers with status 200, the action kind \<^verbatim>\<open>NO_ACTIONS\<close>, the
  action value \<^verbatim>\<open>None\<close>, the fixed explanation, the actual victory points of every
  seat in seating order, and an empty list of all actions; and it makes no call of
  \<^verbatim>\<open>decide\<close>: the log of calls is empty.
\<close>

theorem no_actions_response:
  assumes "create_game_from_advisor_request eng data = Inr (game, adv)"
    and "playable_actions game = []"
  shows "\<exists>vps. calculate_victory_points game = Inr vps \<and>
     list_all2 (\<lambda>c item. fst item = c \<and> (\<exists>i. color_to_index game c = Some i \<and>
        player_state game (i, ''ACTUAL_VICTORY_POINTS'') = Some (snd item))) (colors game) vps \<and>
     advisor_endpoint eng (Some data) =
       (Response 200 (Success ''NO_ACTIONS'' NoneV
          ''No legal actions available in this state.'' vps []), [])"
proof -
  from victory_points_loop [OF seats_have_points [OF assms(1)], of "[]"] obtain vps where
    v: "calculate_victory_points game = Inr vps" and
    l: "list_all2 (\<lambda>c item. fst item = c \<and> (\<exists>i. color_to_index game c = Some i \<and>
        player_state game (i, ''ACTUAL_VICTORY_POINTS'') = Some (snd item))) (colors game) vps"
    unfolding calculate_victory_points_def by auto
  have "advisor_endpoint eng (Some data) =
       (Response 200 (Success ''NO_ACTIONS'' NoneV
          ''No legal actions available in this state.'' vps []), [])"
    by (simp add: advisor_endpoint_def assms v)
  with v l show ?thesis by blast
qed

theorem no_actions_response_witness:
  "\<exists>vps. advisor_endpoint sample_engine (Some idle_request) =
       (Response 200 (Success ''NO_ACTIONS'' NoneV
          ''No legal actions available in this state.'' vps []), []) \<and> length vps = 2"
proof -
  obtain game adv where g: "create_game_from_advisor_request sample_engine idle_request = Inr (game, adv)"
    using idle_game_obtained by blast
  have p: "playable_actions game = []" using idle_request_actions by (simp add: g)
  from no_actions_response [OF g p] obtain vps where
    v: "calculate_victory_points game = Inr vps" and
    l: "list_all2 (\<lambda>c item. fst item = c \<and> (\<exists>i. color_to_index game c = Some i \<and>
        player_state game (i, ''ACTUAL_VICTORY_POINTS'') = Some (snd item))) (colors game) vps" and
    e: "advisor_endpoint sample_engine (Some idle_request) =
       (Response 200 (Success ''NO_ACTIONS'' NoneV
          ''No legal actions available in this state.'' vps []), [])"
    by (elim exE conjE)
  have "colors (fst (projr (create_game_from_advisor_request sample_engine idle_request))) = [RED, BLUE]"
    by code_simp
  then have "colors game = [RED, BLUE]" by (simp add: g)
  with l have "length vps = 2" by (auto dest: list_all2_lengthD)
  with e show ?thesis by blast
qed

subsection \<open>Explanations\<close>

lemma item_or_first:
  assumes "(\<exists>s. v = StrV s) \<or> (\<exists>vs. v = TupleV vs)" and "truthy v"
  shows "\<exists>s. item_or v 0 0 d = Inr s"
  using assms by (auto simp: item_or_def py_index_def)

lemma item_or_last:
  assumes "(\<exists>s. v = StrV s) \<or> (\<exists>vs. v = TupleV vs)"
  shows "\<exists>s. item_or v (- 1) 1 d = Inr s"
  using assms by (auto simp: item_or_def py_index_def)

lemma item_or_unsized:
  assumes "v = BoolV True \<or> (\<exists>n. n \<noteq> 0 \<and> v = IntV n)"
  shows "item_or v i k d = Inl TypeError" and "truthy v"
  using assms by (auto simp: item_or_def)

lemma explanation_other_kinds:
  assumes "action_type a \<noteq> MARITIME_TRADE" and "action_type a \<noteq> MOVE_ROBBER"
  shows "\<exists>s. generate_explanation a g c = Inr s \<and> s \<noteq> []"
  using assms by (cases "action_type a") (simp_all add: generate_explanation_def Let_def)

lemma explanation_falsy:
  assumes "\<not> truthy (action_value a)"
  shows "\<exists>s. generate_explanation a g c = Inr s \<and> s \<noteq> []"
proof (cases "action_type a = MARITIME_TRADE \<or> action_type a = MOVE_ROBBER")
  case True
  with assms show ?thesis by (auto simp: generate_explanation_def Let_def)
next
  case False
  then show ?thesis by (simp add: explanation_other_kinds)
qed

lemma explanation_sized:
  assumes "(\<exists>s. action_value a = StrV s) \<or> (\<exists>vs. action_value a = TupleV vs)"
  shows "\<exists>s. generate_explanation a g c = Inr s \<and> s \<noteq> []"
proof (cases "truthy (action_value a)")
  case False
  then show ?thesis by (rule explanation_falsy)
next
  case True
  from item_or_first [OF assms True] obtain s0 where
    s0: "\<And>d. \<exists>s. item_or (action_value a) 0 0 d = Inr s" by blast
  from item_or_last [OF assms] have
    s1: "\<And>d. \<exists>s. item_or (action_value a) (- 1) 1 d = Inr s" by blast
  obtain x where x: "item_or (action_value a) 0 0 ''resources'' = Inr x" using s0 by blast
  obtain y where y: "item_or (action_value a) (- 1) 1 ''resources'' = Inr y" using s1 by blast
  obtain z where z: "item_or (action_value a) 0 0 ''a tile'' = Inr z" using s0 by blast
  show ?thesis
  proof (cases "action_type a = MARITIME_TRADE \<or> action_type a = MOVE_ROBBER")
    case False
    then show ?thesis by (simp add: explanation_other_kinds)
  next
    case True
    then show ?thesis
      using \<open>truthy (action_value a)\<close> x y z
      by (auto simp: generate_explanation_def Let_def)
  qed
qed

lemma explanation_unsized:
  assumes "action_type a = MARITIME_TRADE \<or> action_type a = MOVE_ROBBER"
    and "action_value a = BoolV True \<or> (\<exists>n. n \<noteq> 0 \<and> action_value a = IntV n)"
  shows "generate_explanation a g c = Inl TypeError"
  using assms(1) item_or_unsized [OF assms(2)]
  by (auto simp: generate_explanation_def Let_def)

text \<open>
  Claim C8 says that \<^verbatim>\<open>generate_explanation\<close> returns a non-empty string whatever the
  payload is. For a maritime trade whose payload is the integer 5 it raises
  \<^verbatim>\<open>TypeError\<close>: the payload is true, and \<^verbatim>\<open>len\<close> is taken of it.
\<close>

theorem explanation_counterexample:
  "generate_explanation (Action RED MARITIME_TRADE (IntV 5)) sample_game RED = Inl TypeError"
  by code_simp

text \<open>
  Claim C8 as amended. \<^verbatim>\<open>generate_explanation\<close> returns a non-empty string for every
  action kind, named in the source or not, when the payload is \<^verbatim>\<open>None\<close>, any other
  false value, a string or a tuple, and for every payload at all when the kind is neither
  \<^verbatim>\<open>MARITIME_TRADE\<close> nor \<^verbatim>\<open>MOVE_ROBBER\<close>. For these two kinds a payload that is
  \<^verbatim>\<open>True\<close> or a non-zero integer raises \<^verbatim>\<open>TypeError\<close>.
\<close>

theorem explanation_total_on_sized_payloads:
  "((action_type a \<noteq> MARITIME_TRADE \<and> action_type a \<noteq> MOVE_ROBBER) \<or>
      action_value a = NoneV \<or> \<not> truthy (action_value a) \<or>
      (\<exists>s. action_value a = StrV s) \<or> (\<exists>vs. action_value a = TupleV vs) \<longrightarrow>
      (\<exists>s. generate_explanation a g c = Inr s \<and> s \<noteq> [])) \<and>
   ((action_type a = MARITIME_TRADE \<or> action_type a = MOVE_ROBBER) \<and>
      (action_value a = BoolV True \<or> (\<exists>n. n \<noteq> 0 \<and> action_value a = IntV n)) \<longrightarrow>
      generate_explanation a g c = Inl TypeError)"
proof (intro conjI impI)
  assume "(action_type a \<noteq> MARITIME_TRADE \<and> action_type a \<noteq> MOVE_ROBBER) \<or>
      action_value a = NoneV \<or> \<not> truthy (action_value a) \<or>
      (\<exists>s. action_value a = StrV s) \<or> (\<exists>vs. action_value a = TupleV vs)"
  then consider "action_type a \<noteq> MARITIME_TRADE \<and> action_type a \<noteq> MOVE_ROBBER"
    | "\<not> truthy (action_value a)"
    | "(\<exists>s. action_value a = StrV s) \<or> (\<exists>vs. action_value a = TupleV vs)"
    by auto
  then show "\<exists>s. generate_explanation a g c = Inr s \<and> s \<noteq> []"
  proof cases
    case 1
    then show ?thesis by (simp add: explanation_other_kinds)
  next
    case 2
    then show ?thesis by (rule explanation_falsy)
  next
    case 3
    then show ?thesis by (rule explanation_sized)
  qed
next
  assume "(action_type a = MARITIME_TRADE \<or> action_type a = MOVE_ROBBER) \<and>
      (action_value a = BoolV True \<or> (\<exists>n. n \<noteq> 0 \<and> action_value a = IntV n))"
  then show "generate_explanation a g c = Inl TypeError"
    by (intro explanation_unsized) simp_all
qed

theorem explanation_total_on_sized_payloads_witness:
  "(\<exists>s. generate_explanation
       (Action RED MARITIME_TRADE (TupleV [StrV ''WOOD'', StrV ''WOOD'', NoneV, NoneV, StrV ''ORE'']))
       sample_game RED = Inr s \<and> s \<noteq> []) \<and>
   (\<exists>s. generate_explanation (Action RED (OtherAction ''ROLL'') NoneV) sample_game RED = Inr s \<and> s \<noteq> []) \<and>
   generate_explanation (Action RED MOVE_ROBBER (IntV 5)) sample_game RED = Inl TypeError"
proof (intro conjI)
  show "\<exists>s. generate_explanation
       (Action RED MARITIME_TRADE (TupleV [StrV ''WOOD'', StrV ''WOOD'', NoneV, NoneV, StrV ''ORE'']))
       sample_game RED = Inr s \<and> s \<noteq> []"
    using explanation_total_on_sized_payloads
      [of "Action RED MARITIME_TRADE (TupleV [StrV ''WOOD'', StrV ''WOOD'', NoneV, NoneV, StrV ''ORE''])"
        sample_game RED]
    by simp
  show "\<exists>s. generate_explanation (Action RED (OtherAction ''ROLL'') NoneV) sample_game RED = Inr s \<and> s \<noteq> []"
    using explanation_total_on_sized_payloads [of "Action RED (OtherAction ''ROLL'') NoneV" sample_game RED]
    by simp
  show "generate_explanation (Action RED MOVE_ROBBER (IntV 5)) sample_game RED = Inl TypeError"
    using explanation_total_on_sized_payloads [of "Action RED MOVE_ROBBER (IntV 5)" sample_game RED]
    by simp
qed

end
